theory Spec2Isabelle
  imports Complex_Main "HOL-Library.AList" "HOL-Library.Word"
begin

section \<open>JavaScript values and strings\<close>

text \<open>
  Both servers exchange JSON-like objects. A value is modelled as the data the source
  builds with object literals: an object is the list of its keys and values in the order
  the literal writes them. Strings are lists of characters, numbers are reals (the
  source divides a confidence by 100), and \<open>JUndefined\<close> is the value of a property
  that is absent. What the handlers write to the console or the log is left out.
\<close>

datatype jsval =
    JUndefined
  | JNull
  | JBool bool
  | JNum real
  | JStr string
  | JObj "(string \<times> jsval) list"

type_synonym conn_id = string
type_synonym session_id = string
type_synonym buffer = "8 word list"

text \<open>What a thrown value is, as far as the \<open>catch\<close> blocks look at it:
  \<open>error instanceof Error ? error.message : ...\<close>.\<close>

datatype thrown = Error string | NonError

text \<open>Property access \<open>v.k\<close> on an object; an absent key reads as \<open>undefined\<close>.\<close>

definition field :: "jsval \<Rightarrow> string \<Rightarrow> jsval option" where
  "field v k = (case v of JObj kvs \<Rightarrow> map_of kvs k | _ \<Rightarrow> None)"

text \<open>JavaScript truthiness, as \<open>if (x)\<close>, \<open>!x\<close>, \<open>x && y\<close> and \<open>x || y\<close> test it.\<close>

fun truthy :: "jsval \<Rightarrow> bool" where
  "truthy JUndefined = False"
| "truthy JNull = False"
| "truthy (JBool b) = b"
| "truthy (JNum x) = (x \<noteq> 0)"
| "truthy (JStr s) = (s \<noteq> [])"
| "truthy (JObj kvs) = True"

text \<open>\<open>typeof v === 'string'\<close>.\<close>

fun typeof_string :: "jsval \<Rightarrow> bool" where
  "typeof_string (JStr s) = True"
| "typeof_string v = False"

text \<open>
  \<open>s.split(',')\<close> with a string separator: the pieces between the separators, empty
  pieces included; the empty string splits into one empty piece.
\<close>

fun split_acc :: "char \<Rightarrow> string \<Rightarrow> string \<Rightarrow> string list" where
  "split_acc sep cur [] = [cur]"
| "split_acc sep cur (x # xs) =
     (if x = sep then cur # split_acc sep [] xs else split_acc sep (cur @ [x]) xs)"

definition split_comma :: "string \<Rightarrow> string list" where
  "split_comma s = split_acc (CHR '','') [] s"

text \<open>\<open>parts[i]\<close>: reading past the end of an array gives \<open>undefined\<close>, here \<open>None\<close>.\<close>

definition index :: "'a list \<Rightarrow> nat \<Rightarrow> 'a option" where
  "index xs i = (if i < length xs then Some (xs ! i) else None)"

text \<open>
  The white space of ECMAScript (\<open>WhiteSpace\<close> and \<open>LineTerminator\<close>), which both
  \<open>String.prototype.trim\<close> and the regular expression class \<open>\s\<close> use, on the
  characters a \<open>char\<close> has: tab, line feed, vertical tab, form feed, carriage
  return, space and no-break space.
\<close>

definition is_ws :: "char \<Rightarrow> bool" where
  "is_ws c = (c \<in> set [CHR 0x09, CHR 0x0A, CHR 0x0B, CHR 0x0C, CHR 0x0D, CHR 0x20, CHR 0xA0])"

definition trim :: "string \<Rightarrow> string" where
  "trim s = rev (dropWhile is_ws (rev (dropWhile is_ws s)))"

text \<open>
  \<open>s.split(/\s+/)\<close>: every maximal run of white space is one separator. A run at the
  start or at the end of the string leaves an empty piece there. The flag says that the
  previous character belonged to a separator.
\<close>

fun split_ws_acc :: "bool \<Rightarrow> string \<Rightarrow> string \<Rightarrow> string list" where
  "split_ws_acc insep cur [] = [cur]"
| "split_ws_acc insep cur (x # xs) =
     (if is_ws x then (if insep then split_ws_acc True [] xs else cur # split_ws_acc True [] xs)
      else split_ws_acc False (cur @ [x]) xs)"

definition split_ws :: "string \<Rightarrow> string list" where
  "split_ws s = split_ws_acc False [] s"

text \<open>\<open>text.split(/\s+/).filter(word => word.length > 0).length\<close>\<close>

definition wordCount :: "string \<Rightarrow> nat" where
  "wordCount s = length (filter (\<lambda>word. length word > 0) (split_ws s))"

text \<open>
  The decimal digits of a number, as a template literal prints \<open>Date.now()\<close>;
  \<open>digit\<close> is only applied to numbers below ten.
\<close>

definition digit :: "nat \<Rightarrow> char" where
  "digit n = ''0123456789'' ! n"

fun decimal :: "nat \<Rightarrow> string" where
  "decimal n =
     (if n < 10 then [digit n]
      else decimal (n div 10) @ [digit (n mod 10)])"

declare decimal.simps [simp del]

section \<open>The stateless tool server (vygil-mcp-server.ts)\<close>

subsection \<open>MetricsCollector\<close>

text \<open>
  The counters are JavaScript numbers that start at zero and only ever have one added;
  they are modelled as natural numbers, which such a number is exactly as long as it is
  below \<open>2^53\<close>. \<open>uptime\<close> holds the start time and is a number too,
  \<open>lastRequest\<close> is \<open>null\<close> or a date.
\<close>

record metrics =
  requests :: nat
  errors :: nat
  screenCaptures :: nat
  ocrRequests :: nat
  activityLogs :: nat
  uptime :: nat
  lastRequest :: "nat option"

datatype metric =
  Requests | Errors | ScreenCaptures | OcrRequests | ActivityLogs | Uptime | LastRequest

text \<open>
  \<open>increment(metric)\<close> adds one when the field holds a number; \<open>lastRequest\<close> never
  does, so the call leaves it alone.
\<close>

fun increment :: "metric \<Rightarrow> metrics \<Rightarrow> metrics" where
  "increment Requests m = m\<lparr>requests := requests m + 1\<rparr>"
| "increment Errors m = m\<lparr>errors := errors m + 1\<rparr>"
| "increment ScreenCaptures m = m\<lparr>screenCaptures := screenCaptures m + 1\<rparr>"
| "increment OcrRequests m = m\<lparr>ocrRequests := ocrRequests m + 1\<rparr>"
| "increment ActivityLogs m = m\<lparr>activityLogs := activityLogs m + 1\<rparr>"
| "increment Uptime m = m\<lparr>uptime := uptime m + 1\<rparr>"
| "increment LastRequest m = m"

definition updateLastRequest :: "nat \<Rightarrow> metrics \<Rightarrow> metrics" where
  "updateLastRequest now m = m\<lparr>lastRequest := Some now\<rparr>"

subsection \<open>The clock and the recognition engine\<close>

text \<open>
  A handler reads the clock several times. The readings are inputs of the model:
  \<open>started\<close> is \<open>Date.now()\<close> at the handler's entry, \<open>requested\<close> the date
  \<open>updateLastRequest\<close> stores, \<open>finished\<close> the later \<open>Date.now()\<close> (the end of
  the work, or the number in an activity id) and \<open>stamp\<close> the string
  \<open>new Date().toISOString()\<close> written into the reply.
\<close>

record clock =
  started :: nat
  requested :: nat
  finished :: nat
  stamp :: string

text \<open>
  \<open>Tesseract.recognize\<close> is not part of the repository. It is a parameter: given the
  image bytes it either rejects with a thrown value or resolves to \<open>result.data\<close>, of
  which the handlers read \<open>text\<close> and \<open>confidence\<close>. \<open>Buffer.from(s, 'base64')\<close>
  is a parameter as well, a total function from strings to bytes: it has no failure
  result for a string argument.
\<close>

record ocr_data =
  data_text :: string
  data_confidence :: real

type_synonym engine = "buffer \<Rightarrow> thrown + ocr_data"
type_synonym decoder = "string \<Rightarrow> buffer"

text \<open>
  What a tool handler does: the object it serialises into its reply, the buffers it
  passed to the engine (in order), and the metrics afterwards.
\<close>

record tool_result =
  reply :: jsval
  engine_calls :: "buffer list"
  metrics_after :: metrics

subsection \<open>The tool \<open>screen_capture\<close>\<close>

definition screen_capture :: "clock \<Rightarrow> metrics \<Rightarrow> tool_result" where
  "screen_capture clk m =
     (let m1 = updateLastRequest (requested clk)
                 (increment ScreenCaptures (increment Requests m));
          mockImageData = ''mock_base64_image_data'';
          processingTime = real (finished clk) - real (started clk)
      in \<lparr>reply = JObj
             [(''success'', JBool True),
              (''imageData'', JStr mockImageData),
              (''timestamp'', JStr (stamp clk)),
              (''processingTime'', JNum processingTime),
              (''metadata'', JObj
                 [(''width'', JNum 1920), (''height'', JNum 1080), (''format'', JStr ''png'')])],
          engine_calls = [],
          metrics_after = m1\<rparr>)"

subsection \<open>The tool \<open>extract_text\<close>\<close>

text \<open>The \<open>catch\<close> block of a tool: count the error and reply with a failure object.\<close>

definition tool_failure ::
  "string \<Rightarrow> thrown \<Rightarrow> clock \<Rightarrow> buffer list \<Rightarrow> metrics \<Rightarrow> tool_result" where
  "tool_failure fallback e clk calls m =
     \<lparr>reply = JObj
        [(''success'', JBool False),
         (''error'', JStr (case e of Error message \<Rightarrow> message | NonError \<Rightarrow> fallback)),
         (''timestamp'', JStr (stamp clk))],
      engine_calls = calls,
      metrics_after = increment Errors m\<rparr>"

text \<open>
  The normalisation of the input: with a comma in it, the second piece of
  \<open>imageData.split(',')\<close> (\<open>parts[1] || ''\<close>), otherwise the input itself.
\<close>

definition base64Data :: "string \<Rightarrow> string" where
  "base64Data imageData =
     (if CHR '','' \<in> set imageData
      then (case index (split_comma imageData) 1 of
              None \<Rightarrow> []
            | Some part \<Rightarrow> (if part \<noteq> [] then part else []))
      else imageData)"

definition invalid_format :: string where
  "invalid_format = ''Invalid image data format. Expected base64 string or data URL.''"

definition extract_text ::
  "decoder \<Rightarrow> engine \<Rightarrow> clock \<Rightarrow> string \<Rightarrow> metrics \<Rightarrow> tool_result" where
  "extract_text decode recognize clk imageData m =
     (let m1 = updateLastRequest (requested clk)
                 (increment OcrRequests (increment Requests m));
          b64 = base64Data imageData
      in if b64 = [] then tool_failure ''OCR processing failed'' (Error invalid_format) clk [] m1
         else
           (let imageBuffer = decode b64 in
            case recognize imageBuffer of
              Inl e \<Rightarrow> tool_failure ''OCR processing failed'' e clk [imageBuffer] m1
            | Inr d \<Rightarrow>
                (let extractedText = trim (data_text d);
                     confidence = data_confidence d / 100;
                     processingTime = real (finished clk) - real (started clk)
                 in \<lparr>reply = JObj
                        [(''success'', JBool True),
                         (''text'', JStr extractedText),
                         (''confidence'', JNum confidence),
                         (''processingTime'', JNum processingTime),
                         (''timestamp'', JStr (stamp clk)),
                         (''metadata'', JObj
                            [(''textLength'', JNum (real (length extractedText))),
                             (''wordCount'', JNum (real (wordCount extractedText)))])],
                     engine_calls = [imageBuffer],
                     metrics_after = m1\<rparr>)))"

subsection \<open>The tool \<open>log_activity\<close>\<close>

text \<open>
  The three numeric inputs are optional in the schema; a destructuring default
  (\<open>confidence = 0\<close>) replaces an omitted one.
\<close>

definition default0 :: "real option \<Rightarrow> real" where
  "default0 v = (case v of None \<Rightarrow> 0 | Some x \<Rightarrow> x)"

definition log_activity ::
  "clock \<Rightarrow> string \<Rightarrow> real option \<Rightarrow> real option \<Rightarrow> real option \<Rightarrow> metrics \<Rightarrow> tool_result" where
  "log_activity clk description confidence screen_text_length processing_time m =
     (let m1 = updateLastRequest (requested clk)
                 (increment ActivityLogs (increment Requests m));
          logEntry = JObj
            [(''timestamp'', JStr (stamp clk)),
             (''description'', JStr description),
             (''confidence'', JNum (default0 confidence)),
             (''screen_text_length'', JNum (default0 screen_text_length)),
             (''processing_time'', JNum (default0 processing_time)),
             (''id'', JStr (''activity_'' @ decimal (finished clk)))]
      in \<lparr>reply = JObj
             [(''success'', JBool True),
              (''logged_at'', JStr (stamp clk)),
              (''activity_id'', JStr (''activity_'' @ decimal (finished clk))),
              (''entry'', logEntry)],
          engine_calls = [],
          metrics_after = m1\<rparr>)"

subsection \<open>Tool invocations\<close>

datatype tool_call =
    ScreenCapture
  | ExtractText string
  | LogActivity string "real option" "real option" "real option"

fun invoke :: "decoder \<Rightarrow> engine \<Rightarrow> clock \<Rightarrow> tool_call \<Rightarrow> metrics \<Rightarrow> tool_result" where
  "invoke decode recognize clk ScreenCapture m = screen_capture clk m"
| "invoke decode recognize clk (ExtractText imageData) m =
     extract_text decode recognize clk imageData m"
| "invoke decode recognize clk (LogActivity d c l t) m = log_activity clk d c l t m"

text \<open>A sequence of invocations, each with its own clock readings, threads the metrics.\<close>

fun invoke_all :: "decoder \<Rightarrow> engine \<Rightarrow> (clock \<times> tool_call) list \<Rightarrow> metrics \<Rightarrow> metrics" where
  "invoke_all decode recognize [] m = m"
| "invoke_all decode recognize ((clk, call) # rest) m =
     invoke_all decode recognize rest (metrics_after (invoke decode recognize clk call m))"

section \<open>The duplex session server (server.js)\<close>

subsection \<open>Sessions, rooms and effects\<close>

text \<open>
  \<open>activeSessions\<close> is a plain object keyed by session id. It is a list of keys
  and values in insertion order, the order in which \<open>for (const sessionId in
  activeSessions)\<close> visits them; assigning to a new key appends
  (\<^const>\<open>AList.update\<close>) and \<open>delete\<close> removes the key.
\<close>

record session =
  id' :: session_id
  host :: conn_id
  viewers :: "conn_id list"
  startTime :: nat

text \<open>
  The object is created as \<open>{}\<close>, so it inherits the properties of
  \<open>Object.prototype\<close>. The lookup \<open>activeSessions[sessionId]\<close> gives the session
  stored under an own key, else the inherited function or object when the id is one of
  the inherited names (every one of them is truthy and has no \<open>viewers\<close>), else
  \<open>undefined\<close>. The loop \<open>for ... in\<close> visits the own keys only.
\<close>

definition object_prototype_names :: "string list" where
  "object_prototype_names =
     [''constructor'', ''__proto__'', ''hasOwnProperty'', ''isPrototypeOf'',
      ''propertyIsEnumerable'', ''toLocaleString'', ''toString'', ''valueOf'',
      ''__defineGetter__'', ''__defineSetter__'', ''__lookupGetter__'', ''__lookupSetter__'']"

datatype lookup = Missing | Entry session | Inherited

definition registry_get :: "(session_id \<times> session) list \<Rightarrow> string \<Rightarrow> lookup" where
  "registry_get sessions sessionId =
     (case map_of sessions sessionId of
        Some session \<Rightarrow> Entry session
      | None \<Rightarrow> (if sessionId \<in> set object_prototype_names then Inherited else Missing))"

text \<open>
  The rooms belong to the socket library, not to the repository: a room is a set of
  connections, here a list without repetitions in the order of joining. A connection is
  put into the room named by its own id when it connects (which is how
  \<open>io.to(session.host)\<close> reaches the host), \<open>socket.join\<close> adds it to a room
  once, and the library takes a closing connection out of every room before it fires
  \<open>disconnect\<close>.
\<close>

record server =
  activeSessions :: "(session_id \<times> session) list"
  rooms :: "string \<Rightarrow> conn_id list"

definition socket_join :: "conn_id \<Rightarrow> string \<Rightarrow> (string \<Rightarrow> conn_id list) \<Rightarrow> (string \<Rightarrow> conn_id list)" where
  "socket_join c room rs = rs(room := (if c \<in> set (rs room) then rs room else rs room @ [c]))"

definition leave_all :: "conn_id \<Rightarrow> (string \<Rightarrow> conn_id list) \<Rightarrow> (string \<Rightarrow> conn_id list)" where
  "leave_all c rs = (\<lambda>room. removeAll c (rs room))"

text \<open>
  What a handler does besides changing the registry, in program order: a packet to one
  connection (\<open>socket.emit\<close>), a packet to the members of a room (\<open>io.to(room).emit\<close>,
  or \<open>socket.to(room).emit\<close>, which leaves the sender out; the effect records the room
  and the connections the packet goes to), a call of the recognition engine, and the
  deletion of a registry entry. The last one is an exception that no \<open>catch\<close> of
  the handler takes: it leaves the handler for the runtime.
\<close>

datatype effect =
    Send conn_id string jsval
  | Broadcast string "conn_id list" string jsval
  | OcrInvoke buffer
  | DeleteSession session_id
  | Uncaught thrown

definition io_to :: "string \<Rightarrow> string \<Rightarrow> jsval \<Rightarrow> (string \<Rightarrow> conn_id list) \<Rightarrow> effect" where
  "io_to room ev payload rs = Broadcast room (rs room) ev payload"

definition socket_to :: "conn_id \<Rightarrow> string \<Rightarrow> string \<Rightarrow> jsval \<Rightarrow> (string \<Rightarrow> conn_id list) \<Rightarrow> effect" where
  "socket_to c room ev payload rs = Broadcast room (removeAll c (rs room)) ev payload"

definition error_event :: "conn_id \<Rightarrow> string \<Rightarrow> effect" where
  "error_event c message = Send c ''error'' (JObj [(''message'', JStr message)])"

definition ocr_result :: "conn_id \<Rightarrow> session_id \<Rightarrow> nat \<Rightarrow> string \<Rightarrow> effect" where
  "ocr_result c sessionId now extractedText =
     Send c ''ocr-result''
       (JObj [(''sessionId'', JStr sessionId),
              (''timestamp'', JNum (real now)),
              (''text'', JStr extractedText)])"

text \<open>The packets one connection is sent by a sequence of effects, in order.\<close>

fun received :: "conn_id \<Rightarrow> effect list \<Rightarrow> (string \<times> jsval) list" where
  "received v [] = []"
| "received v (Send c ev payload # es) =
     (if c = v then (ev, payload) # received v es else received v es)"
| "received v (Broadcast room cs ev payload # es) =
     replicate (count_list cs v) (ev, payload) @ received v es"
| "received v (OcrInvoke b # es) = received v es"
| "received v (DeleteSession s # es) = received v es"
| "received v (Uncaught e # es) = received v es"

subsection \<open>connection, create-session, join-session\<close>

definition connect :: "conn_id \<Rightarrow> server \<Rightarrow> server \<times> effect list" where
  "connect c st = (st\<lparr>rooms := socket_join c c (rooms st)\<rparr>, [])"

text \<open>
  The fresh id is \<open>uuidv4()\<close>, the time \<open>Date.now()\<close>: both are inputs. An id
  from \<open>uuidv4\<close> is made of hexadecimal digits and dashes.
\<close>

definition create_session :: "conn_id \<Rightarrow> session_id \<Rightarrow> nat \<Rightarrow> server \<Rightarrow> server \<times> effect list" where
  "create_session c sessionId now st =
     (st\<lparr>activeSessions :=
           AList.update sessionId
             \<lparr>id' = sessionId, host = c, viewers = [], startTime = now\<rparr> (activeSessions st),
         rooms := socket_join c sessionId (rooms st)\<rparr>,
      [Send c ''session-created'' (JObj [(''sessionId'', JStr sessionId)])])"

text \<open>
  \<open>join-session\<close> has no \<open>try\<close>. For an inherited name the guard
  \<open>if (!session)\<close> lets the value pass, and \<open>session.viewers.push\<close> throws a
  \<open>TypeError\<close> before anything is changed or sent.
\<close>

definition join_session :: "conn_id \<Rightarrow> session_id \<Rightarrow> server \<Rightarrow> server \<times> effect list" where
  "join_session c sessionId st =
     (case registry_get (activeSessions st) sessionId of
        Missing \<Rightarrow> (st, [error_event c ''Session not found''])
      | Inherited \<Rightarrow> (st, [Uncaught (Error ''TypeError'')])
      | Entry session \<Rightarrow>
          (let rs = socket_join c sessionId (rooms st) in
           (st\<lparr>activeSessions :=
                 AList.update sessionId (session\<lparr>viewers := viewers session @ [c]\<rparr>)
                   (activeSessions st),
               rooms := rs\<rparr>,
            [Send c ''session-joined'' (JObj [(''sessionId'', JStr sessionId)]),
             io_to (host session) ''viewer-joined'' (JObj [(''viewerId'', JStr c)]) rs])))"

subsection \<open>screen-data\<close>

text \<open>
  \<open>chunk.data\<close>: reading a property of \<open>undefined\<close> or \<open>null\<close> throws a
  \<open>TypeError\<close>; an object gives the property or \<open>undefined\<close>; the primitive values
  have no such property.
\<close>

definition chunk_data :: "jsval \<Rightarrow> thrown + jsval" where
  "chunk_data chunk =
     (case chunk of
        JUndefined \<Rightarrow> Inl (Error ''TypeError'')
      | JNull \<Rightarrow> Inl (Error ''TypeError'')
      | JObj kvs \<Rightarrow> Inr (case map_of kvs ''data'' of None \<Rightarrow> JUndefined | Some v \<Rightarrow> v)
      | _ \<Rightarrow> Inr JUndefined)"

text \<open>
  Decoding and recognition, as both socket handlers write them: the buffer is handed to
  the engine; the text goes back to the sender, a rejection is caught and reported with
  the handler's message.
\<close>

definition perform_ocr ::
  "decoder \<Rightarrow> engine \<Rightarrow> nat \<Rightarrow> conn_id \<Rightarrow> session_id \<Rightarrow> string \<Rightarrow> string \<Rightarrow> effect list" where
  "perform_ocr decode recognize now c sessionId failed base64 =
     (let imageBuffer = decode base64 in
      OcrInvoke imageBuffer #
      (case recognize imageBuffer of
         Inl e \<Rightarrow> [error_event c failed]
       | Inr r \<Rightarrow> [ocr_result c sessionId now (data_text r)]))"

text \<open>
  The image text of a frame: \<open>parts.length > 1 ? parts[1] : parts[0]\<close>, where
  \<open>parts = chunk.data.split(',')\<close>.
\<close>

definition frame_imageData :: "string \<Rightarrow> string option" where
  "frame_imageData s =
     (let parts = split_comma s in if length parts > 1 then index parts 1 else index parts 0)"

text \<open>
  The body of the \<open>try\<close> after the broadcast, with its \<open>catch\<close>. The test
  \<open>if (imageData)\<close> fails for \<open>undefined\<close> and for the empty string. The
  handler is suspended while the engine works; what it does when it resumes (one packet
  to the sender) reads neither the registry nor the rooms, so its effects are listed
  with those before the suspension, in their order.
\<close>

definition screen_ocr ::
  "decoder \<Rightarrow> engine \<Rightarrow> nat \<Rightarrow> conn_id \<Rightarrow> session_id \<Rightarrow> jsval \<Rightarrow> effect list" where
  "screen_ocr decode recognize now c sessionId chunk =
     (case chunk_data chunk of
        Inl e \<Rightarrow> [error_event c ''Failed to process OCR'']
      | Inr d \<Rightarrow>
          (if truthy d \<and> typeof_string d then
             (case d of
                JStr s \<Rightarrow>
                  (case frame_imageData s of
                     None \<Rightarrow> [error_event c ''Invalid image data'']
                   | Some imageData \<Rightarrow>
                       (if imageData \<noteq> []
                        then perform_ocr decode recognize now c sessionId
                               ''Failed to process OCR'' imageData
                        else [error_event c ''Invalid image data'']))
              | _ \<Rightarrow> [])
           else []))"

text \<open>
  After the guard the handler does not read the session again: whatever truthy value the
  lookup gave, a stored session or an inherited property, the frame is broadcast to the
  room named by the id and goes through recognition.
\<close>

definition screen_data ::
  "decoder \<Rightarrow> engine \<Rightarrow> nat \<Rightarrow> conn_id \<Rightarrow> session_id \<Rightarrow> jsval \<Rightarrow> server \<Rightarrow> server \<times> effect list" where
  "screen_data decode recognize now c sessionId chunk st =
     (case registry_get (activeSessions st) sessionId of
        Missing \<Rightarrow> (st, [error_event c ''Session not found''])
      | found \<Rightarrow>
          (st, socket_to c sessionId ''screen-data'' (JObj [(''chunk'', chunk)]) (rooms st) #
               screen_ocr decode recognize now c sessionId chunk))"

subsection \<open>request-ocr\<close>

text \<open>
  \<open>imageData.split(',')[1]\<close>: the second piece, \<open>undefined\<close> when the string has no
  comma. A value that is not a string has no \<open>split\<close>; the call throws inside the
  \<open>try\<close>.
\<close>

definition request_ocr ::
  "decoder \<Rightarrow> engine \<Rightarrow> nat \<Rightarrow> conn_id \<Rightarrow> session_id \<Rightarrow> jsval \<Rightarrow> server \<Rightarrow> server \<times> effect list" where
  "request_ocr decode recognize now c sessionId imageData st =
     (case registry_get (activeSessions st) sessionId of
        Missing \<Rightarrow> (st, [error_event c ''Session not found''])
      | found \<Rightarrow>
          (st,
           (case imageData of
              JStr s \<Rightarrow>
                (case index (split_comma s) 1 of
                   None \<Rightarrow> [error_event c ''Invalid image data'']
                 | Some b \<Rightarrow>
                     (if b = [] then [error_event c ''Invalid image data'']
                      else perform_ocr decode recognize now c sessionId ''Failed to perform OCR'' b))
            | _ \<Rightarrow> [error_event c ''Failed to perform OCR''])))"

subsection \<open>disconnect\<close>

text \<open>
  The handler visits every session. A session of the departing host is announced to
  its room and deleted; otherwise the connection is filtered out of the viewers and the
  host is told. The sweep returns the remaining registry and the effects.
\<close>

fun sweep ::
  "conn_id \<Rightarrow> (string \<Rightarrow> conn_id list) \<Rightarrow> (session_id \<times> session) list
     \<Rightarrow> (session_id \<times> session) list \<times> effect list" where
  "sweep c rs [] = ([], [])"
| "sweep c rs ((sessionId, session) # rest) =
     (let (rest', effs) = sweep c rs rest in
      if host session = c then
        (rest',
         io_to sessionId ''session-ended'' (JObj [(''message'', JStr ''Host has disconnected'')]) rs #
         DeleteSession sessionId # effs)
      else if c \<in> set (viewers session) then
        ((sessionId, session\<lparr>viewers := filter (\<lambda>i. i \<noteq> c) (viewers session)\<rparr>) # rest',
         io_to (host session) ''viewer-left'' (JObj [(''viewerId'', JStr c)]) rs # effs)
      else ((sessionId, session) # rest', effs))"

definition on_disconnect :: "conn_id \<Rightarrow> server \<Rightarrow> server \<times> effect list" where
  "on_disconnect c st =
     (let (sessions, effs) = sweep c (rooms st) (activeSessions st)
      in (st\<lparr>activeSessions := sessions\<rparr>, effs))"

text \<open>A connection closes: the library empties its rooms, then the handler runs.\<close>

definition disconnect :: "conn_id \<Rightarrow> server \<Rightarrow> server \<times> effect list" where
  "disconnect c st = on_disconnect c (st\<lparr>rooms := leave_all c (rooms st)\<rparr>)"

subsection \<open>The server as a state machine\<close>

datatype inbound =
    Connect conn_id
  | CreateSession conn_id session_id nat
  | JoinSession conn_id session_id
  | ScreenData conn_id session_id jsval nat
  | RequestOcr conn_id session_id jsval nat
  | Disconnect conn_id

fun step :: "decoder \<Rightarrow> engine \<Rightarrow> inbound \<Rightarrow> server \<Rightarrow> server \<times> effect list" where
  "step decode recognize (Connect c) st = connect c st"
| "step decode recognize (CreateSession c sessionId now) st = create_session c sessionId now st"
| "step decode recognize (JoinSession c sessionId) st = join_session c sessionId st"
| "step decode recognize (ScreenData c sessionId chunk now) st =
     screen_data decode recognize now c sessionId chunk st"
| "step decode recognize (RequestOcr c sessionId imageData now) st =
     request_ocr decode recognize now c sessionId imageData st"
| "step decode recognize (Disconnect c) st = disconnect c st"

definition initial :: server where
  "initial = \<lparr>activeSessions = [], rooms = (\<lambda>room. [])\<rparr>"

text \<open>The state and the effects after a sequence of events, from a given state.\<close>

fun run :: "decoder \<Rightarrow> engine \<Rightarrow> inbound list \<Rightarrow> server \<Rightarrow> server \<times> effect list" where
  "run decode recognize [] st = (st, [])"
| "run decode recognize (ev # evs) st =
     (let (st1, effs1) = step decode recognize ev st;
          (st2, effs2) = run decode recognize evs st1
      in (st2, effs1 @ effs2))"

text \<open>
  The states the server can be in: the initial one and whatever an event leads to. (An
  uncaught exception may end the process; the states after it are counted all the same.)
\<close>

inductive reachable :: "server \<Rightarrow> bool" where
  reachable_initial: "reachable initial"
| reachable_step: "reachable st \<Longrightarrow> reachable (fst (step decode recognize ev st))"

section \<open>Sample environment for closed examples\<close>

text \<open>
  The closed examples below need a concrete decoder, engine and clock. The decoder is a
  lenient base64 decoder of the kind \<open>Buffer.from\<close> applies: characters outside the
  alphabet are skipped, decoding stops at the padding, and no input is refused. The
  engine rejects an empty buffer and reads a fixed text off any other image.
\<close>

definition b64_value :: "char \<Rightarrow> nat option" where
  "b64_value c =
     (let n = (of_char c :: nat) in
      if 65 \<le> n \<and> n \<le> 90 then Some (n - 65)
      else if 97 \<le> n \<and> n \<le> 122 then Some (n - 71)
      else if 48 \<le> n \<and> n \<le> 57 then Some (n + 4)
      else if c = CHR ''+'' \<or> c = CHR ''-'' then Some 62
      else if c = CHR ''/'' \<or> c = CHR ''_'' then Some 63
      else None)"

fun pack :: "nat list \<Rightarrow> buffer" where
  "pack (a # b # c # d # rest) =
     [of_nat (a * 4 + b div 16), of_nat ((b mod 16) * 16 + c div 4), of_nat ((c mod 4) * 64 + d)]
       @ pack rest"
| "pack [a, b, c] = [of_nat (a * 4 + b div 16), of_nat ((b mod 16) * 16 + c div 4)]"
| "pack [a, b] = [of_nat (a * 4 + b div 16)]"
| "pack rest = []"

definition lenient_base64 :: decoder where
  "lenient_base64 s = pack (List.map_filter b64_value (takeWhile (\<lambda>c. c \<noteq> CHR ''='') s))"

definition sample_engine :: engine where
  "sample_engine imageBuffer =
     (if imageBuffer = [] then Inl (Error ''Error attempting to read image.'')
      else Inr \<lparr>data_text = ''  HELLO   WORLD '' @ [CHR 0x0A], data_confidence = 87\<rparr>)"

definition sample_clock :: clock where
  "sample_clock =
     \<lparr>started = 1700000000000, requested = 1700000000000, finished = 1700000000250,
      stamp = ''2023-11-14T22:13:20.250Z''\<rparr>"

definition fresh_metrics :: metrics where
  "fresh_metrics =
     \<lparr>requests = 0, errors = 0, screenCaptures = 0, ocrRequests = 0, activityLogs = 0,
      uptime = 1699999990000, lastRequest = None\<rparr>"

section \<open>Notions the properties are stated with\<close>

text \<open>One metrics record is below another when none of the five counters is smaller.\<close>

definition counters_le :: "metrics \<Rightarrow> metrics \<Rightarrow> bool" where
  "counters_le m m' =
     (requests m \<le> requests m' \<and> errors m \<le> errors m' \<and>
      screenCaptures m \<le> screenCaptures m' \<and> ocrRequests m \<le> ocrRequests m' \<and>
      activityLogs m \<le> activityLogs m')"

text \<open>The counter that belongs to a tool.\<close>

fun tool_counter :: "tool_call \<Rightarrow> metrics \<Rightarrow> nat" where
  "tool_counter ScreenCapture m = screenCaptures m"
| "tool_counter (ExtractText imageData) m = ocrRequests m"
| "tool_counter (LogActivity d c l t) m = activityLogs m"

text \<open>
  The number of words of a text: the positions where a character that is not white
  space follows white space or starts the text. The flag says whether the previous
  position was white space.
\<close>

fun word_starts :: "bool \<Rightarrow> string \<Rightarrow> nat" where
  "word_starts after_ws [] = 0"
| "word_starts after_ws (c # cs) =
     (if \<not> is_ws c \<and> after_ws then 1 else 0) + word_starts (is_ws c) cs"

text \<open>What follows the first comma of a string.\<close>

definition after_first_comma :: "string \<Rightarrow> string" where
  "after_first_comma s = drop 1 (dropWhile (\<lambda>c. c \<noteq> CHR '','') s)"

text \<open>
  The strings a strict base64 decoder (RFC 4648) accepts: groups of four characters of
  the alphabet, the last group possibly padded with one or two \<open>=\<close>. The repository
  has no such test; the predicate only names the inputs that are not base64.
\<close>

definition base64_char :: "char \<Rightarrow> bool" where
  "base64_char c =
     (let n = (of_char c :: nat) in
      (65 \<le> n \<and> n \<le> 90) \<or> (97 \<le> n \<and> n \<le> 122) \<or> (48 \<le> n \<and> n \<le> 57)
      \<or> c = CHR ''+'' \<or> c = CHR ''/'')"

definition strict_base64 :: "string \<Rightarrow> bool" where
  "strict_base64 s =
     (length s mod 4 = 0 \<and>
      list_all base64_char (takeWhile (\<lambda>c. c \<noteq> CHR ''='') s) \<and>
      dropWhile (\<lambda>c. c \<noteq> CHR ''='') s \<in> set [[], ''='', ''==''])"

text \<open>Tests on the fields of a reply.\<close>

definition has_bool :: "jsval \<Rightarrow> string \<Rightarrow> bool" where
  "has_bool v k = (case field v k of Some (JBool b) \<Rightarrow> True | _ \<Rightarrow> False)"

definition has_string :: "jsval \<Rightarrow> string \<Rightarrow> bool" where
  "has_string v k = (case field v k of Some (JStr s) \<Rightarrow> True | _ \<Rightarrow> False)"

definition has_field :: "jsval \<Rightarrow> string \<Rightarrow> bool" where
  "has_field v k = (case field v k of Some x \<Rightarrow> True | None \<Rightarrow> False)"

text \<open>
  The uniform envelope: a boolean \<open>success\<close>, a \<open>timestamp\<close>, and an \<open>error\<close>
  string when \<open>success\<close> is false.
\<close>

definition uniform_envelope :: "jsval \<Rightarrow> bool" where
  "uniform_envelope v =
     (has_bool v ''success'' \<and> has_field v ''timestamp'' \<and>
      (if field v ''success'' = Some (JBool False) then has_string v ''error'' else True))"

text \<open>The payload of a packet; the other effects carry none.\<close>

fun payload :: "effect \<Rightarrow> jsval option" where
  "payload (Send c ev p) = Some p"
| "payload (Broadcast room cs ev p) = Some p"
| "payload (OcrInvoke b) = None"
| "payload (DeleteSession s) = None"
| "payload (Uncaught e) = None"

text \<open>A packet is bare when its payload has no \<open>success\<close> field at all.\<close>

definition bare :: "effect \<Rightarrow> bool" where
  "bare e = (case payload e of None \<Rightarrow> True | Some p \<Rightarrow> \<not> has_field p ''success'')"

text \<open>
  The events of the socket protocol, each with the keys of its payload. A packet is on
  the wire as the protocol has it when its name and the keys of its payload are one of
  these, and the \<open>message\<close> of an \<open>error\<close> is a string.
\<close>

definition keys_of :: "jsval \<Rightarrow> string list" where
  "keys_of p = (case p of JObj kvs \<Rightarrow> map fst kvs | _ \<Rightarrow> [])"

definition catalogued :: "string \<Rightarrow> jsval \<Rightarrow> bool" where
  "catalogued ev p =
     ((ev, keys_of p) \<in> set
        [(''session-created'', [''sessionId'']),
         (''session-joined'', [''sessionId'']),
         (''viewer-joined'', [''viewerId'']),
         (''viewer-left'', [''viewerId'']),
         (''session-ended'', [''message'']),
         (''screen-data'', [''chunk'']),
         (''ocr-result'', [''sessionId'', ''timestamp'', ''text'']),
         (''error'', [''message''])]
      \<and> (if ev = ''error'' then has_string p ''message'' else True))"

fun wire :: "effect \<Rightarrow> bool" where
  "wire (Send c ev p) = catalogued ev p"
| "wire (Broadcast room cs ev p) = catalogued ev p"
| "wire (OcrInvoke b) = True"
| "wire (DeleteSession s) = True"
| "wire (Uncaught e) = True"

text \<open>The same connection sends \<open>join-session\<close> for the same session \<open>n\<close> times.\<close>

fun joins :: "nat \<Rightarrow> conn_id \<Rightarrow> session_id \<Rightarrow> server \<Rightarrow> server" where
  "joins 0 c sessionId st = st"
| "joins (Suc n) c sessionId st = joins n c sessionId (fst (join_session c sessionId st))"

text \<open>A registry with one session, for the closed examples.\<close>

definition one_session :: server where
  "one_session =
     fst (run lenient_base64 sample_engine
            [Connect ''host-1'', CreateSession ''host-1'' ''s-1'' 1700000000000,
             Connect ''viewer-1'', JoinSession ''viewer-1'' ''s-1'',
             Connect ''viewer-2'', JoinSession ''viewer-2'' ''s-1'']
            initial)"

text \<open>An effect that is an engine call or a packet to the connection \<open>c\<close> alone.\<close>

fun to_sender_only :: "conn_id \<Rightarrow> effect \<Rightarrow> bool" where
  "to_sender_only c (Send r ev p) = (r = c)"
| "to_sender_only c (Broadcast room cs ev p) = False"
| "to_sender_only c (OcrInvoke b) = True"
| "to_sender_only c (DeleteSession s) = False"
| "to_sender_only c (Uncaught e) = False"

text \<open>
  What holds in every state the server reaches: the viewers of a session are members of
  its room, no room lists a connection twice, and no session id occurs twice in the
  registry.
\<close>

definition subscribed :: "server \<Rightarrow> bool" where
  "subscribed st =
     (\<forall>(sessionId, session) \<in> set (activeSessions st).
        set (viewers session) \<subseteq> set (rooms st sessionId))"

definition invariant :: "server \<Rightarrow> bool" where
  "invariant st =
     (subscribed st \<and> (\<forall>room. distinct (rooms st room)) \<and> distinct (map fst (activeSessions st)))"

text \<open>The announcement of the end of one session: \<open>session-ended\<close> to its room.\<close>

fun announces :: "session_id \<Rightarrow> effect \<Rightarrow> bool" where
  "announces k (Broadcast room cs ev p) = (room = k \<and> ev = ''session-ended'')"
| "announces k (Send c ev p) = False"
| "announces k (OcrInvoke b) = False"
| "announces k (DeleteSession s) = False"
| "announces k (Uncaught e) = False"

text \<open>The number of \<open>session-ended\<close> packets among those a connection is sent.\<close>

definition ended_received :: "conn_id \<Rightarrow> effect list \<Rightarrow> nat" where
  "ended_received v effs = length (filter (\<lambda>(ev, p). ev = ''session-ended'') (received v effs))"

section \<open>Splitting and trimming\<close>

text \<open>The pieces of \<open>split\<close>: the first runs up to the first separator, the others
  are the pieces of what follows it.\<close>

lemma split_acc_takeWhile:
  "split_acc sep cur s =
     (cur @ takeWhile (\<lambda>c. c \<noteq> sep) s) #
     (if sep \<in> set s then split_acc sep [] (drop 1 (dropWhile (\<lambda>c. c \<noteq> sep) s)) else [])"
  by (induction s arbitrary: cur) auto

lemma split_acc_nonempty: "split_acc sep cur s \<noteq> []"
  by (subst split_acc_takeWhile) simp

lemma index_split_comma_1:
  "CHR '','' \<in> set s \<Longrightarrow>
   index (split_comma s) 1 = Some (takeWhile (\<lambda>c. c \<noteq> CHR '','') (after_first_comma s))"
proof -
  assume c: "CHR '','' \<in> set s"
  let ?rest = "after_first_comma s"
  have 1: "split_comma s =
      takeWhile (\<lambda>c. c \<noteq> CHR '','') s # split_acc (CHR '','') [] ?rest"
    unfolding split_comma_def after_first_comma_def
    by (subst split_acc_takeWhile) (simp add: c)
  have 2: "split_acc (CHR '','') [] ?rest =
      takeWhile (\<lambda>c. c \<noteq> CHR '','') ?rest #
        (if CHR '','' \<in> set ?rest
         then split_acc (CHR '','') [] (drop 1 (dropWhile (\<lambda>c. c \<noteq> CHR '','') ?rest)) else [])"
    by (subst split_acc_takeWhile) simp
  show ?thesis
    unfolding 1 by (subst 2) (simp add: index_def)
qed

lemma base64Data_eq:
  "base64Data s =
     (if CHR '','' \<in> set s then takeWhile (\<lambda>c. c \<noteq> CHR '','') (after_first_comma s) else s)"
  by (simp add: base64Data_def index_split_comma_1 del: One_nat_def)

lemma base64Data_empty:
  "s = [] \<or> (CHR '','' \<in> set s \<and> after_first_comma s = []) \<Longrightarrow> base64Data s = []"
  by (auto simp: base64Data_eq)

text \<open>\<open>trim\<close> removes white space at both ends and nothing else.\<close>

lemma rev_dropWhile_split: "xs = rev (dropWhile P (rev xs)) @ rev (takeWhile P (rev xs))"
  by (metis rev_append rev_rev_ident takeWhile_dropWhile_id)

lemma trim_decomp:
  "\<exists>pre post. s = pre @ trim s @ post \<and> list_all is_ws pre \<and> list_all is_ws post"
proof -
  let ?t = "dropWhile is_ws s"
  have s: "s = takeWhile is_ws s @ ?t" by simp
  have t: "?t = trim s @ rev (takeWhile is_ws (rev ?t))"
    unfolding trim_def by (rule rev_dropWhile_split)
  have a: "list_all is_ws (takeWhile is_ws s)"
    by (simp add: list_all_iff) (meson set_takeWhileD)
  have b: "list_all is_ws (rev (takeWhile is_ws (rev ?t)))"
    by (simp add: list_all_iff) (meson set_takeWhileD)
  from s t have "s = takeWhile is_ws s @ trim s @ rev (takeWhile is_ws (rev ?t))" by simp
  with a b show ?thesis by blast
qed

lemma trim_edges:
  "trim s \<noteq> [] \<Longrightarrow> \<not> is_ws (hd (trim s)) \<and> \<not> is_ws (last (trim s))"
proof -
  assume ne: "trim s \<noteq> []"
  let ?t = "dropWhile is_ws s"
  have t: "?t = trim s @ rev (takeWhile is_ws (rev ?t))"
    unfolding trim_def by (rule rev_dropWhile_split)
  from ne t have tne: "?t \<noteq> []" by (metis Nil_is_append_conv)
  have "hd ?t = hd (trim s)" using ne t by (metis hd_append2)
  moreover have "\<not> is_ws (hd ?t)" using tne by (rule hd_dropWhile)
  moreover have "last (trim s) = hd (dropWhile is_ws (rev ?t))"
    using ne by (simp add: trim_def last_rev)
  moreover have "\<not> is_ws (hd (dropWhile is_ws (rev ?t)))"
  proof (rule hd_dropWhile)
    show "dropWhile is_ws (rev ?t) \<noteq> []"
      using ne unfolding trim_def by (metis rev_is_Nil_conv)
  qed
  ultimately show ?thesis by simp
qed

text \<open>The pieces of \<open>split(/\s+/)\<close> that are not empty are the words of the text.\<close>

lemma count_split_ws_acc:
  "length (filter (\<lambda>word. length word > 0) (split_ws_acc False cur s)) =
     (if cur = [] then word_starts True s else 1 + word_starts False s)
   \<and> length (filter (\<lambda>word. length word > 0) (split_ws_acc True [] s)) = word_starts True s"
  by (induction s arbitrary: cur) auto

lemma wordCount_word_starts: "wordCount s = word_starts True s"
  using count_split_ws_acc [of "[]" s] by (simp add: wordCount_def split_ws_def)

section \<open>The session server: facts about the handlers\<close>

lemmas handler_defs = connect_def create_session_def join_session_def screen_data_def
  request_ocr_def disconnect_def on_disconnect_def screen_ocr_def perform_ocr_def
  socket_join_def leave_all_def io_to_def socket_to_def error_event_def ocr_result_def
  initial_def chunk_data_def frame_imageData_def registry_get_def

lemma registry_get_entry:
  "map_of sessions sessionId = Some session \<Longrightarrow> registry_get sessions sessionId = Entry session"
  by (simp add: registry_get_def)

lemma registry_get_missing:
  "map_of sessions sessionId = None \<Longrightarrow> sessionId \<notin> set object_prototype_names
     \<Longrightarrow> registry_get sessions sessionId = Missing"
  by (simp add: registry_get_def)

lemma registry_get_inherited:
  "map_of sessions sessionId = None \<Longrightarrow> sessionId \<in> set object_prototype_names
     \<Longrightarrow> registry_get sessions sessionId = Inherited"
  by (simp add: registry_get_def)

lemma one_session_sessions:
  "activeSessions one_session =
     [(''s-1'', \<lparr>id' = ''s-1'', host = ''host-1'', viewers = [''viewer-1'', ''viewer-2''],
        startTime = 1700000000000\<rparr>)]"
  by (simp add: one_session_def handler_defs)

lemma one_session_room:
  "rooms one_session ''s-1'' = [''host-1'', ''viewer-1'', ''viewer-2'']"
  by (simp add: one_session_def handler_defs)

lemma one_session_room_host:
  "rooms one_session ''host-1'' = [''host-1'']"
  by (simp add: one_session_def handler_defs)

lemma on_disconnect_simps:
  "snd (on_disconnect c st) = snd (sweep c (rooms st) (activeSessions st))"
  "activeSessions (fst (on_disconnect c st)) = fst (sweep c (rooms st) (activeSessions st))"
  "rooms (fst (on_disconnect c st)) = rooms st"
  by (simp_all add: on_disconnect_def split: prod.splits)

lemma disconnect_simps:
  "snd (disconnect c st) = snd (sweep c (leave_all c (rooms st)) (activeSessions st))"
  "activeSessions (fst (disconnect c st)) = fst (sweep c (leave_all c (rooms st)) (activeSessions st))"
  "rooms (fst (disconnect c st)) = leave_all c (rooms st)"
  by (simp_all add: disconnect_def on_disconnect_simps)

text \<open>Scenario A: a host creates a session, a viewer joins, the host is told.\<close>

lemma create_and_join_scenario_A:
  "snd (run lenient_base64 sample_engine
          [Connect ''host-1'', CreateSession ''host-1'' ''s-1'' 1700000000000,
           Connect ''viewer-1'', JoinSession ''viewer-1'' ''s-1'']
          initial) =
     [Send ''host-1'' ''session-created'' (JObj [(''sessionId'', JStr ''s-1'')]),
      Send ''viewer-1'' ''session-joined'' (JObj [(''sessionId'', JStr ''s-1'')]),
      Broadcast ''host-1'' [''host-1''] ''viewer-joined'' (JObj [(''viewerId'', JStr ''viewer-1'')])]"
  by (simp add: handler_defs)

section \<open>The tool \<open>extract_text\<close>\<close>

lemma base64Data_raw: "CHR '','' \<notin> set b \<Longrightarrow> base64Data b = b"
  by (simp add: base64Data_eq)

lemma base64Data_data_url:
  "CHR '','' \<notin> set scheme \<Longrightarrow> CHR '','' \<notin> set b \<Longrightarrow> base64Data (scheme @ CHR '','' # b) = b"
proof -
  assume s: "CHR '','' \<notin> set scheme" and b: "CHR '','' \<notin> set b"
  have "dropWhile (\<lambda>c. c \<noteq> CHR '','') (scheme @ CHR '','' # b) = CHR '','' # b"
    using s by (subst dropWhile_append2) auto
  then have "after_first_comma (scheme @ CHR '','' # b) = b"
    by (simp add: after_first_comma_def)
  moreover have "takeWhile (\<lambda>c. c \<noteq> CHR '','') b = b"
    using b by auto
  ultimately show ?thesis by (simp add: base64Data_eq)
qed

lemma extract_text_accepts:
  assumes "base64Data imageData \<noteq> []"
    and "recognize (decode (base64Data imageData)) = Inr d"
  shows "extract_text decode recognize clk imageData m =
     \<lparr>reply = JObj
        [(''success'', JBool True),
         (''text'', JStr (trim (data_text d))),
         (''confidence'', JNum (data_confidence d / 100)),
         (''processingTime'', JNum (real (finished clk) - real (started clk))),
         (''timestamp'', JStr (stamp clk)),
         (''metadata'', JObj
            [(''textLength'', JNum (real (length (trim (data_text d))))),
             (''wordCount'', JNum (real (wordCount (trim (data_text d)))))])],
      engine_calls = [decode (base64Data imageData)],
      metrics_after = updateLastRequest (requested clk)
                 (increment OcrRequests (increment Requests m))\<rparr>"
  using assms by (simp add: extract_text_def Let_def)

lemma extract_text_engine_rejects:
  assumes "base64Data imageData \<noteq> []"
    and "recognize (decode (base64Data imageData)) = Inl e"
  shows "extract_text decode recognize clk imageData m =
     tool_failure ''OCR processing failed'' e clk [decode (base64Data imageData)]
       (updateLastRequest (requested clk) (increment OcrRequests (increment Requests m)))"
  using assms by (simp add: extract_text_def Let_def)

lemma extract_text_refuses:
  assumes "base64Data imageData = []"
  shows "extract_text decode recognize clk imageData m =
     tool_failure ''OCR processing failed'' (Error invalid_format) clk []
       (updateLastRequest (requested clk) (increment OcrRequests (increment Requests m)))"
  using assms by (simp add: extract_text_def Let_def)

text \<open>
  C4. The input is a base64 text \<open>b\<close> (not empty and, as base64 is, without a comma),
  alone or behind a scheme prefix and a comma. When the engine resolves for the decoded
  bytes with a confidence between 0 and 100, the reply has \<open>success: true\<close>; its
  \<open>text\<close> is the engine's text without the white space at its two ends (and with
  everything else); its \<open>confidence\<close> is the engine's divided by 100 and lies in
  \<open>[0, 1]\<close>; its \<open>metadata.wordCount\<close> is the number of non-empty pieces of the
  trimmed text split at runs of white space, which is the number of its words; and the
  engine was called once, on the bytes of \<open>b\<close>.
\<close>

theorem extract_text_success:
  assumes input: "imageData = b \<or> imageData = scheme @ CHR '','' # b"
    and b: "b \<noteq> []" "CHR '','' \<notin> set b" "CHR '','' \<notin> set scheme"
    and engine: "recognize (decode b) = Inr d"
    and range: "0 \<le> data_confidence d" "data_confidence d \<le> 100"
  shows
    "field (reply (extract_text decode recognize clk imageData m)) ''success'' = Some (JBool True)
     \<and> field (reply (extract_text decode recognize clk imageData m)) ''text''
         = Some (JStr (trim (data_text d)))
     \<and> (\<exists>pre post. data_text d = pre @ trim (data_text d) @ post
           \<and> list_all is_ws pre \<and> list_all is_ws post)
     \<and> (trim (data_text d) = [] \<or>
          (\<not> is_ws (hd (trim (data_text d))) \<and> \<not> is_ws (last (trim (data_text d)))))
     \<and> field (reply (extract_text decode recognize clk imageData m)) ''confidence''
         = Some (JNum (data_confidence d / 100))
     \<and> 0 \<le> data_confidence d / 100 \<and> data_confidence d / 100 \<le> 1
     \<and> (\<exists>metadata.
           field (reply (extract_text decode recognize clk imageData m)) ''metadata'' = Some metadata
           \<and> field metadata ''wordCount''
               = Some (JNum (real (length (filter (\<lambda>word. word \<noteq> [])
                                             (split_ws (trim (data_text d))))))))
     \<and> length (filter (\<lambda>word. word \<noteq> []) (split_ws (trim (data_text d))))
         = word_starts True (trim (data_text d))
     \<and> engine_calls (extract_text decode recognize clk imageData m) = [decode b]"
proof -
  have norm: "base64Data imageData = b"
    using input b by (auto simp: base64Data_raw base64Data_data_url)
  have ne: "base64Data imageData \<noteq> []" using norm b by simp
  have eng: "recognize (decode (base64Data imageData)) = Inr d" using norm engine by simp
  note r = extract_text_accepts [where recognize = recognize and decode = decode, OF ne eng, of clk m]
  have wc: "wordCount (trim (data_text d))
      = length (filter (\<lambda>word. word \<noteq> []) (split_ws (trim (data_text d))))"
    by (simp add: wordCount_def)
  have ws: "length (filter (\<lambda>word. word \<noteq> []) (split_ws (trim (data_text d))))
      = word_starts True (trim (data_text d))"
    using wordCount_word_starts [of "trim (data_text d)"] wc by simp
  have edges: "trim (data_text d) = [] \<or>
          (\<not> is_ws (hd (trim (data_text d))) \<and> \<not> is_ws (last (trim (data_text d))))"
    using trim_edges [of "data_text d"] by blast
  have fields:
    "field (reply (extract_text decode recognize clk imageData m)) ''success'' = Some (JBool True)"
    "field (reply (extract_text decode recognize clk imageData m)) ''text''
         = Some (JStr (trim (data_text d)))"
    "field (reply (extract_text decode recognize clk imageData m)) ''confidence''
         = Some (JNum (data_confidence d / 100))"
    "field (reply (extract_text decode recognize clk imageData m)) ''metadata''
         = Some (JObj
            [(''textLength'', JNum (real (length (trim (data_text d))))),
             (''wordCount'', JNum (real (wordCount (trim (data_text d)))))])"
    "engine_calls (extract_text decode recognize clk imageData m) = [decode b]"
    by (simp_all add: r field_def norm)
  have meta: "\<exists>metadata.
           field (reply (extract_text decode recognize clk imageData m)) ''metadata'' = Some metadata
           \<and> field metadata ''wordCount''
               = Some (JNum (real (length (filter (\<lambda>word. word \<noteq> [])
                                             (split_ws (trim (data_text d)))))))"
    unfolding fields(4) by (simp add: field_def wc)
  have conf: "0 \<le> data_confidence d / 100" "data_confidence d / 100 \<le> 1"
    using range by simp_all
  show ?thesis
    using fields(1,2,3,5) trim_decomp [of "data_text d"] edges conf meta ws by blast
qed

lemma sample_b64: "lenient_base64 ''aGVsbG8='' = [0x68, 0x65, 0x6c, 0x6c, 0x6f]"
  by (simp add: lenient_base64_def b64_value_def List.map_filter_def)

theorem extract_text_success_witness:
  "(''data:image/png;base64,aGVsbG8='' = ''aGVsbG8=''
      \<or> ''data:image/png;base64,aGVsbG8='' = ''data:image/png;base64'' @ CHR '','' # ''aGVsbG8='')
   \<and> ''aGVsbG8='' \<noteq> [] \<and> CHR '','' \<notin> set ''aGVsbG8=''
   \<and> CHR '','' \<notin> set ''data:image/png;base64''
   \<and> sample_engine (lenient_base64 ''aGVsbG8='')
        = Inr \<lparr>data_text = ''  HELLO   WORLD '' @ [CHR 0x0A], data_confidence = 87\<rparr>
   \<and> field (reply (extract_text lenient_base64 sample_engine sample_clock
          ''data:image/png;base64,aGVsbG8='' fresh_metrics)) ''text''
        = Some (JStr ''HELLO   WORLD'')
   \<and> field (reply (extract_text lenient_base64 sample_engine sample_clock
          ''data:image/png;base64,aGVsbG8='' fresh_metrics)) ''confidence''
        = Some (JNum (87 / 100))
   \<and> word_starts True ''HELLO   WORLD'' = 2
   \<and> engine_calls (extract_text lenient_base64 sample_engine sample_clock
          ''data:image/png;base64,aGVsbG8='' fresh_metrics)
        = [[0x68, 0x65, 0x6c, 0x6c, 0x6f]]"
proof -
  let ?d = "\<lparr>data_text = ''  HELLO   WORLD '' @ [CHR 0x0A], data_confidence = 87\<rparr>"
  have input: "''data:image/png;base64,aGVsbG8='' = ''aGVsbG8=''
      \<or> ''data:image/png;base64,aGVsbG8='' = ''data:image/png;base64'' @ CHR '','' # ''aGVsbG8=''"
    by simp
  have b: "''aGVsbG8='' \<noteq> []" "CHR '','' \<notin> set ''aGVsbG8=''"
    "CHR '','' \<notin> set ''data:image/png;base64''"
    by simp_all
  have engine: "sample_engine (lenient_base64 ''aGVsbG8='') = Inr ?d"
    by (simp add: sample_b64 sample_engine_def)
  have range: "0 \<le> data_confidence ?d" "data_confidence ?d \<le> 100"
    by simp_all
  have t: "trim (data_text ?d) = ''HELLO   WORLD''"
    by (simp add: trim_def is_ws_def)
  have w: "word_starts True ''HELLO   WORLD'' = 2"
    by (simp add: is_ws_def)
  note th = extract_text_success [where decode = lenient_base64 and recognize = sample_engine,
        OF input b engine range, of sample_clock fresh_metrics]
  have tx: "field (reply (extract_text lenient_base64 sample_engine sample_clock
          ''data:image/png;base64,aGVsbG8='' fresh_metrics)) ''text''
        = Some (JStr ''HELLO   WORLD'')"
    using th [THEN conjunct2, THEN conjunct1] by (simp only: t)
  have conf: "field (reply (extract_text lenient_base64 sample_engine sample_clock
          ''data:image/png;base64,aGVsbG8='' fresh_metrics)) ''confidence''
        = Some (JNum (87 / 100))"
    using th by simp
  have calls: "engine_calls (extract_text lenient_base64 sample_engine sample_clock
          ''data:image/png;base64,aGVsbG8='' fresh_metrics)
        = [[0x68, 0x65, 0x6c, 0x6c, 0x6f]]"
    using th by (simp only: sample_b64)
  show ?thesis
    using input b engine tx conf w calls by (intro conjI)
qed

lemma extract_text_calls_engine:
  "base64Data imageData \<noteq> [] \<Longrightarrow>
   engine_calls (extract_text decode recognize clk imageData m) = [decode (base64Data imageData)]"
  by (simp add: extract_text_def tool_failure_def Let_def split: sum.splits)

text \<open>
  C5, as the code has it. An input that is empty, or that has nothing after its first
  comma, is refused: the reply is a failure object with the message for invalid image
  data, the error counter goes up by one, and the engine is not called. Any other test
  of the input is absent: whenever the normalised text is not empty, base64 or not, it
  is decoded and the engine is called on the bytes.
\<close>

theorem extract_text_rejects_empty:
  "(imageData = [] \<or> (CHR '','' \<in> set imageData \<and> after_first_comma imageData = []) \<longrightarrow>
      reply (extract_text decode recognize clk imageData m) =
        JObj [(''success'', JBool False),
              (''error'', JStr ''Invalid image data format. Expected base64 string or data URL.''),
              (''timestamp'', JStr (stamp clk))]
      \<and> engine_calls (extract_text decode recognize clk imageData m) = []
      \<and> errors (metrics_after (extract_text decode recognize clk imageData m)) = errors m + 1)
   \<and> (base64Data imageData \<noteq> [] \<longrightarrow>
      engine_calls (extract_text decode recognize clk imageData m)
        = [decode (base64Data imageData)])"
proof (intro conjI impI)
  assume "imageData = [] \<or> (CHR '','' \<in> set imageData \<and> after_first_comma imageData = [])"
  then have e: "base64Data imageData = []"
    by (rule base64Data_empty)
  show "reply (extract_text decode recognize clk imageData m) =
        JObj [(''success'', JBool False),
              (''error'', JStr ''Invalid image data format. Expected base64 string or data URL.''),
              (''timestamp'', JStr (stamp clk))]"
    by (simp add: extract_text_refuses [OF e] tool_failure_def invalid_format_def)
  show "engine_calls (extract_text decode recognize clk imageData m) = []"
    by (simp add: extract_text_refuses [OF e] tool_failure_def)
  show "errors (metrics_after (extract_text decode recognize clk imageData m)) = errors m + 1"
    by (simp add: extract_text_refuses [OF e] tool_failure_def updateLastRequest_def)
next
  assume "base64Data imageData \<noteq> []"
  then show "engine_calls (extract_text decode recognize clk imageData m)
        = [decode (base64Data imageData)]"
    by (rule extract_text_calls_engine)
qed

theorem extract_text_rejects_empty_witness:
  "(''data:image/png;base64,'' = []
      \<or> (CHR '','' \<in> set ''data:image/png;base64,''
          \<and> after_first_comma ''data:image/png;base64,'' = []))
   \<and> reply (extract_text lenient_base64 sample_engine sample_clock
         ''data:image/png;base64,'' fresh_metrics) =
       JObj [(''success'', JBool False),
             (''error'', JStr ''Invalid image data format. Expected base64 string or data URL.''),
             (''timestamp'', JStr ''2023-11-14T22:13:20.250Z'')]
   \<and> engine_calls (extract_text lenient_base64 sample_engine sample_clock
         ''data:image/png;base64,'' fresh_metrics) = []
   \<and> errors (metrics_after (extract_text lenient_base64 sample_engine sample_clock
         ''data:image/png;base64,'' fresh_metrics)) = 1
   \<and> base64Data ''data:image/png;base64,aGVsbG8='' = ''aGVsbG8=''
   \<and> engine_calls (extract_text lenient_base64 sample_engine sample_clock
         ''data:image/png;base64,aGVsbG8='' fresh_metrics) = [[0x68, 0x65, 0x6c, 0x6c, 0x6f]]"
proof -
  have h: "''data:image/png;base64,'' = []
      \<or> (CHR '','' \<in> set ''data:image/png;base64,''
          \<and> after_first_comma ''data:image/png;base64,'' = [])"
    by (simp add: after_first_comma_def)
  have n: "base64Data ''data:image/png;base64,aGVsbG8='' = ''aGVsbG8=''"
    by (simp add: base64Data_def split_comma_def index_def)
  have ne: "base64Data ''data:image/png;base64,aGVsbG8='' \<noteq> []"
    by (simp add: n)
  note refused = extract_text_rejects_empty [of "''data:image/png;base64,''" lenient_base64
      sample_engine sample_clock fresh_metrics, THEN conjunct1, rule_format, OF h]
  note called = extract_text_rejects_empty [of "''data:image/png;base64,aGVsbG8=''" lenient_base64
      sample_engine sample_clock fresh_metrics, THEN conjunct2, rule_format, OF ne]
  have r: "reply (extract_text lenient_base64 sample_engine sample_clock
         ''data:image/png;base64,'' fresh_metrics) =
       JObj [(''success'', JBool False),
             (''error'', JStr ''Invalid image data format. Expected base64 string or data URL.''),
             (''timestamp'', JStr ''2023-11-14T22:13:20.250Z'')]"
    using refused by (simp add: sample_clock_def)
  have c: "engine_calls (extract_text lenient_base64 sample_engine sample_clock
         ''data:image/png;base64,'' fresh_metrics) = []"
    using refused by simp
  have e: "errors (metrics_after (extract_text lenient_base64 sample_engine sample_clock
         ''data:image/png;base64,'' fresh_metrics)) = 1"
    using refused by (simp add: fresh_metrics_def)
  have c2: "engine_calls (extract_text lenient_base64 sample_engine sample_clock
         ''data:image/png;base64,aGVsbG8='' fresh_metrics) = [[0x68, 0x65, 0x6c, 0x6c, 0x6f]]"
    using called by (simp only: n sample_b64)
  show ?thesis
    using h r c e n c2 by (intro conjI)
qed

text \<open>
  C5 also promises the refusal for an input that is not base64. The handler has no such
  test: \<open>!!!\<close> is not base64, it is decoded all the same (to no bytes by the sample
  decoder), the engine is called, and the error in the reply is the engine's.
\<close>

theorem extract_text_malformed_counterexample:
  "\<not> strict_base64 ''!!!''
   \<and> engine_calls (extract_text lenient_base64 sample_engine sample_clock ''!!!'' fresh_metrics)
        = [[]]
   \<and> reply (extract_text lenient_base64 sample_engine sample_clock ''!!!'' fresh_metrics) =
       JObj [(''success'', JBool False),
             (''error'', JStr ''Error attempting to read image.''),
             (''timestamp'', JStr ''2023-11-14T22:13:20.250Z'')]"
proof -
  have b: "\<not> strict_base64 ''!!!''"
    by (simp add: strict_base64_def)
  have d: "lenient_base64 ''!!!'' = []"
    by (simp add: lenient_base64_def b64_value_def List.map_filter_def)
  have n: "base64Data ''!!!'' = ''!!!''"
    by (simp add: base64Data_def)
  have ne: "base64Data ''!!!'' \<noteq> []"
    by (simp add: n)
  have e: "sample_engine (lenient_base64 (base64Data ''!!!'')) = Inl (Error ''Error attempting to read image.'')"
    by (simp add: n d sample_engine_def)
  show ?thesis
    using b
    by (simp add: extract_text_engine_rejects [where recognize = sample_engine and decode = lenient_base64, OF ne e]
        tool_failure_def n d sample_clock_def)
qed

section \<open>Metrics\<close>

lemma counters_le_refl: "counters_le m m"
  by (simp add: counters_le_def)

lemma counters_le_trans: "counters_le a b \<Longrightarrow> counters_le b c \<Longrightarrow> counters_le a c"
  by (auto simp: counters_le_def)

lemma counters_le_increment: "counters_le m (increment k m)"
  by (cases k) (simp_all add: counters_le_def)

lemma counters_le_updateLastRequest: "counters_le m (updateLastRequest t m)"
  by (simp add: counters_le_def updateLastRequest_def)

lemma extract_text_metrics:
  "metrics_after (extract_text decode recognize clk imageData m) =
     (let m1 = updateLastRequest (requested clk) (increment OcrRequests (increment Requests m))
      in if base64Data imageData = [] then increment Errors m1
         else (case recognize (decode (base64Data imageData)) of
                 Inl e \<Rightarrow> increment Errors m1 | Inr d \<Rightarrow> m1))"
  by (simp add: extract_text_def tool_failure_def Let_def split: sum.splits)

lemma counters_le_invoke: "counters_le m (metrics_after (invoke decode recognize clk call m))"
  by (cases call)
     (simp_all add: counters_le_def screen_capture_def log_activity_def extract_text_metrics
        updateLastRequest_def Let_def split: sum.splits)

lemma counters_le_invoke_all: "counters_le m (invoke_all decode recognize calls m)"
proof (induction calls arbitrary: m)
  case Nil
  show ?case by (simp add: counters_le_refl)
next
  case (Cons a calls)
  obtain clk call where a: "a = (clk, call)" by (cases a)
  show ?case
    unfolding a invoke_all.simps
    by (rule counters_le_trans [OF counters_le_invoke Cons.IH])
qed

lemma requests_invoke:
  "requests (metrics_after (invoke decode recognize clk call m)) = requests m + 1"
  by (cases call)
     (simp_all add: screen_capture_def log_activity_def extract_text_metrics
        updateLastRequest_def Let_def split: sum.splits)

lemma requests_invoke_all:
  "requests (invoke_all decode recognize calls m) = requests m + length calls"
proof (induction calls arbitrary: m)
  case Nil
  show ?case by simp
next
  case (Cons a calls)
  obtain clk call where a: "a = (clk, call)" by (cases a)
  show ?case
    unfolding a invoke_all.simps
    by (simp add: Cons.IH requests_invoke)
qed

lemma tool_counter_invoke:
  "tool_counter call (metrics_after (invoke decode recognize clk call m)) = tool_counter call m + 1"
  by (cases call)
     (simp_all add: screen_capture_def log_activity_def extract_text_metrics
        updateLastRequest_def Let_def split: sum.splits)

lemma tool_counters_sum_invoke:
  "screenCaptures (metrics_after (invoke decode recognize clk call m))
     + ocrRequests (metrics_after (invoke decode recognize clk call m))
     + activityLogs (metrics_after (invoke decode recognize clk call m))
   = screenCaptures m + ocrRequests m + activityLogs m + 1"
  by (cases call)
     (simp_all add: screen_capture_def log_activity_def extract_text_metrics
        updateLastRequest_def Let_def split: sum.splits)

text \<open>
  C7. No operation on the metrics lowers a counter: not \<open>increment\<close> of any field, not
  \<open>updateLastRequest\<close>, not a tool invocation and not a sequence of invocations. One
  invocation adds exactly one to \<open>requests\<close> and exactly one to the counter of its own
  tool, and to no other tool's counter; a sequence of \<open>n\<close> invocations adds \<open>n\<close> to
  \<open>requests\<close>.
\<close>

theorem metrics_counters_monotone:
  "counters_le m (increment k m)
   \<and> counters_le m (updateLastRequest t m)
   \<and> counters_le m (metrics_after (invoke decode recognize clk call m))
   \<and> counters_le m (invoke_all decode recognize calls m)
   \<and> requests (metrics_after (invoke decode recognize clk call m)) = requests m + 1
   \<and> tool_counter call (metrics_after (invoke decode recognize clk call m)) = tool_counter call m + 1
   \<and> screenCaptures (metrics_after (invoke decode recognize clk call m))
       + ocrRequests (metrics_after (invoke decode recognize clk call m))
       + activityLogs (metrics_after (invoke decode recognize clk call m))
       = screenCaptures m + ocrRequests m + activityLogs m + 1
   \<and> requests (invoke_all decode recognize calls m) = requests m + length calls"
proof (intro conjI)
  show "counters_le m (increment k m)"
    by (rule counters_le_increment)
  show "counters_le m (updateLastRequest t m)"
    by (rule counters_le_updateLastRequest)
  show "counters_le m (metrics_after (invoke decode recognize clk call m))"
    by (rule counters_le_invoke)
  show "counters_le m (invoke_all decode recognize calls m)"
    by (rule counters_le_invoke_all)
  show "requests (metrics_after (invoke decode recognize clk call m)) = requests m + 1"
    by (rule requests_invoke)
  show "tool_counter call (metrics_after (invoke decode recognize clk call m)) = tool_counter call m + 1"
    by (rule tool_counter_invoke)
  show "screenCaptures (metrics_after (invoke decode recognize clk call m))
       + ocrRequests (metrics_after (invoke decode recognize clk call m))
       + activityLogs (metrics_after (invoke decode recognize clk call m))
       = screenCaptures m + ocrRequests m + activityLogs m + 1"
    by (rule tool_counters_sum_invoke)
  show "requests (invoke_all decode recognize calls m) = requests m + length calls"
    by (rule requests_invoke_all)
qed

section \<open>The tool \<open>log_activity\<close>\<close>

lemma log_activity_entry:
  "field (reply (log_activity clk description c l t m)) ''entry'' =
     Some (JObj [(''timestamp'', JStr (stamp clk)),
                 (''description'', JStr description),
                 (''confidence'', JNum (default0 c)),
                 (''screen_text_length'', JNum (default0 l)),
                 (''processing_time'', JNum (default0 t)),
                 (''id'', JStr (''activity_'' @ decimal (finished clk)))])"
  by (simp add: log_activity_def field_def)

lemma default0_omitted: "default0 None = 0"
  by (simp add: default0_def)

text \<open>
  C8. Called with a description only, \<open>log_activity\<close> replies \<open>success: true\<close> with
  an entry whose \<open>confidence\<close>, \<open>screen_text_length\<close> and \<open>processing_time\<close> are
  zero; and each of the three is zero whenever it is omitted, whatever the other two are.
\<close>

theorem log_activity_defaults:
  "field (reply (log_activity clk description None None None m)) ''success'' = Some (JBool True)
   \<and> field (reply (log_activity clk description None None None m)) ''entry'' =
       Some (JObj [(''timestamp'', JStr (stamp clk)),
                   (''description'', JStr description),
                   (''confidence'', JNum 0),
                   (''screen_text_length'', JNum 0),
                   (''processing_time'', JNum 0),
                   (''id'', JStr (''activity_'' @ decimal (finished clk)))])
   \<and> (\<exists>entry. field (reply (log_activity clk description None l t m)) ''entry'' = Some entry
        \<and> field entry ''confidence'' = Some (JNum 0))
   \<and> (\<exists>entry. field (reply (log_activity clk description c None t m)) ''entry'' = Some entry
        \<and> field entry ''screen_text_length'' = Some (JNum 0))
   \<and> (\<exists>entry. field (reply (log_activity clk description c l None m)) ''entry'' = Some entry
        \<and> field entry ''processing_time'' = Some (JNum 0))"
proof (intro conjI)
  show "field (reply (log_activity clk description None None None m)) ''success'' = Some (JBool True)"
    by (simp add: log_activity_def field_def)
  show "field (reply (log_activity clk description None None None m)) ''entry'' =
       Some (JObj [(''timestamp'', JStr (stamp clk)),
                   (''description'', JStr description),
                   (''confidence'', JNum 0),
                   (''screen_text_length'', JNum 0),
                   (''processing_time'', JNum 0),
                   (''id'', JStr (''activity_'' @ decimal (finished clk)))])"
    by (simp add: log_activity_entry default0_omitted)
  show "\<exists>entry. field (reply (log_activity clk description None l t m)) ''entry'' = Some entry
        \<and> field entry ''confidence'' = Some (JNum 0)"
    unfolding log_activity_entry by (simp add: field_def default0_omitted)
  show "\<exists>entry. field (reply (log_activity clk description c None t m)) ''entry'' = Some entry
        \<and> field entry ''screen_text_length'' = Some (JNum 0)"
    unfolding log_activity_entry by (simp add: field_def default0_omitted)
  show "\<exists>entry. field (reply (log_activity clk description c l None m)) ''entry'' = Some entry
        \<and> field entry ''processing_time'' = Some (JNum 0)"
    unfolding log_activity_entry by (simp add: field_def default0_omitted)
qed

text \<open>The call of scenario D, evaluated.\<close>

lemma log_activity_scenario_D:
  "reply (log_activity sample_clock ''test'' None None None fresh_metrics) =
   JObj [(''success'', JBool True),
         (''logged_at'', JStr ''2023-11-14T22:13:20.250Z''),
         (''activity_id'', JStr ''activity_1700000000250''),
         (''entry'', JObj [(''timestamp'', JStr ''2023-11-14T22:13:20.250Z''),
                   (''description'', JStr ''test''),
                   (''confidence'', JNum 0),
                   (''screen_text_length'', JNum 0),
                   (''processing_time'', JNum 0),
                   (''id'', JStr ''activity_1700000000250'')])]"
  by (simp add: log_activity_def default0_def sample_clock_def decimal.simps digit_def)

section \<open>screen-data\<close>

lemma screen_data_found:
  assumes "map_of (activeSessions st) sessionId = Some session"
  shows "screen_data decode recognize now c sessionId chunk st =
     (st, Broadcast sessionId (removeAll c (rooms st sessionId)) ''screen-data''
            (JObj [(''chunk'', chunk)]) #
          screen_ocr decode recognize now c sessionId chunk)"
  using assms by (simp add: screen_data_def registry_get_entry socket_to_def)

lemma perform_ocr_to_sender:
  "list_all (to_sender_only c) (perform_ocr decode recognize now c sessionId failed b)"
  by (simp add: perform_ocr_def error_event_def ocr_result_def Let_def split: sum.splits)

lemma screen_ocr_to_sender:
  "list_all (to_sender_only c) (screen_ocr decode recognize now c sessionId chunk)"
  by (simp add: screen_ocr_def perform_ocr_to_sender error_event_def
      split: sum.splits jsval.splits option.splits)

text \<open>The frame handler normalises the image text as \<open>extract_text\<close> does.\<close>

lemma length_split_comma: "(1 < length (split_comma s)) = (CHR '','' \<in> set s)"
  unfolding split_comma_def
  by (subst split_acc_takeWhile) (simp add: split_acc_nonempty)

lemma index_split_comma_0:
  "index (split_comma s) 0 = Some (takeWhile (\<lambda>c. c \<noteq> CHR '','') s)"
  unfolding split_comma_def
  by (subst split_acc_takeWhile) (simp add: index_def)

lemma frame_imageData_eq: "frame_imageData s = Some (base64Data s)"
proof (cases "CHR '','' \<in> set s")
  case True
  then show ?thesis
    by (simp add: frame_imageData_def length_split_comma index_split_comma_1 base64Data_eq
        del: One_nat_def)
next
  case False
  then have "takeWhile (\<lambda>c. c \<noteq> CHR '','') s = s" by auto
  with False show ?thesis
    by (simp add: frame_imageData_def length_split_comma index_split_comma_0 base64Data_eq
        del: One_nat_def)
qed

lemma screen_ocr_image:
  assumes "chunk_data chunk = Inr (JStr s)" and "frame_imageData s = Some b" and "b \<noteq> []"
  shows "screen_ocr decode recognize now c sessionId chunk =
     OcrInvoke (decode b) #
     (case recognize (decode b) of
        Inl e \<Rightarrow> [Send c ''error'' (JObj [(''message'', JStr ''Failed to process OCR'')])]
      | Inr r \<Rightarrow>
          [Send c ''ocr-result''
             (JObj [(''sessionId'', JStr sessionId), (''timestamp'', JNum (real now)),
                    (''text'', JStr (data_text r))])])"
proof -
  have "s \<noteq> []"
    using assms(2,3) by (auto simp: frame_imageData_def split_comma_def index_def)
  then show ?thesis
    using assms
    by (simp add: screen_ocr_def perform_ocr_def error_event_def ocr_result_def Let_def
        split: sum.splits)
qed

text \<open>
  C1. For a \<open>screen-data\<close> message of a session of the registry, whatever the chunk
  is, the first effect is the broadcast of the raw chunk to the room of the session, to
  every member but the sender; the registry and the rooms are as before; and every later
  effect is a call of the engine or a packet to the sender: nothing else is broadcast and
  nothing is deleted. When the chunk carries an image text, the engine is called on its
  bytes after the broadcast, and then the sender alone gets either the \<open>ocr-result\<close>
  (session id, server time, text) or, when the engine rejects, the \<open>error\<close> event. The
  broadcast does not depend on the outcome.
\<close>

theorem screen_data_broadcast_before_ocr:
  assumes "map_of (activeSessions st) sessionId = Some session"
  shows
    "screen_data decode recognize now c sessionId chunk st =
       (st, Broadcast sessionId (removeAll c (rooms st sessionId)) ''screen-data''
              (JObj [(''chunk'', chunk)]) #
            screen_ocr decode recognize now c sessionId chunk)
     \<and> set (removeAll c (rooms st sessionId)) = set (rooms st sessionId) - {c}
     \<and> list_all (to_sender_only c) (screen_ocr decode recognize now c sessionId chunk)
     \<and> (\<forall>s b e. chunk_data chunk = Inr (JStr s) \<and> frame_imageData s = Some b \<and> b \<noteq> []
            \<and> recognize (decode b) = Inl e \<longrightarrow>
          screen_ocr decode recognize now c sessionId chunk =
            [OcrInvoke (decode b),
             Send c ''error'' (JObj [(''message'', JStr ''Failed to process OCR'')])])
     \<and> (\<forall>s b r. chunk_data chunk = Inr (JStr s) \<and> frame_imageData s = Some b \<and> b \<noteq> []
            \<and> recognize (decode b) = Inr r \<longrightarrow>
          screen_ocr decode recognize now c sessionId chunk =
            [OcrInvoke (decode b),
             Send c ''ocr-result''
               (JObj [(''sessionId'', JStr sessionId),
                      (''timestamp'', JNum (real now)),
                      (''text'', JStr (data_text r))])])
     \<and> map_of (activeSessions (fst (screen_data decode recognize now c sessionId chunk st)))
          sessionId = Some session"
proof -
  note eq = screen_data_found [OF assms, of decode recognize now c chunk]
  have recips: "set (removeAll c (rooms st sessionId)) = set (rooms st sessionId) - {c}"
    by simp
  have failure: "\<forall>s b e. chunk_data chunk = Inr (JStr s) \<and> frame_imageData s = Some b \<and> b \<noteq> []
            \<and> recognize (decode b) = Inl e \<longrightarrow>
          screen_ocr decode recognize now c sessionId chunk =
            [OcrInvoke (decode b),
             Send c ''error'' (JObj [(''message'', JStr ''Failed to process OCR'')])]"
    by (simp add: screen_ocr_image)
  have success: "\<forall>s b r. chunk_data chunk = Inr (JStr s) \<and> frame_imageData s = Some b \<and> b \<noteq> []
            \<and> recognize (decode b) = Inr r \<longrightarrow>
          screen_ocr decode recognize now c sessionId chunk =
            [OcrInvoke (decode b),
             Send c ''ocr-result''
               (JObj [(''sessionId'', JStr sessionId),
                      (''timestamp'', JNum (real now)),
                      (''text'', JStr (data_text r))])]"
    by (simp add: screen_ocr_image)
  have kept: "map_of (activeSessions (fst (screen_data decode recognize now c sessionId chunk st)))
            sessionId = Some session"
    by (simp add: eq assms)
  show ?thesis
    using eq recips screen_ocr_to_sender [of c decode recognize now sessionId chunk]
      failure success kept
    by (intro conjI)
qed

theorem screen_data_broadcast_before_ocr_witness:
  "map_of (activeSessions one_session) ''s-1'' =
     Some \<lparr>id' = ''s-1'', host = ''host-1'', viewers = [''viewer-1'', ''viewer-2''],
           startTime = 1700000000000\<rparr>
   \<and> chunk_data (JObj [(''data'', JStr ''data:image/png;base64,!!!'')])
        = Inr (JStr ''data:image/png;base64,!!!'')
   \<and> frame_imageData ''data:image/png;base64,!!!'' = Some ''!!!''
   \<and> sample_engine (lenient_base64 ''!!!'') = Inl (Error ''Error attempting to read image.'')
   \<and> screen_data lenient_base64 sample_engine 1700000000300 ''host-1'' ''s-1''
         (JObj [(''data'', JStr ''data:image/png;base64,!!!'')]) one_session =
       (one_session,
        [Broadcast ''s-1'' [''viewer-1'', ''viewer-2''] ''screen-data''
           (JObj [(''chunk'', JObj [(''data'', JStr ''data:image/png;base64,!!!'')])]),
         OcrInvoke [],
         Send ''host-1'' ''error'' (JObj [(''message'', JStr ''Failed to process OCR'')])])
   \<and> chunk_data (JObj [(''data'', JStr ''aGVsbG8='')]) = Inr (JStr ''aGVsbG8='')
   \<and> frame_imageData ''aGVsbG8='' = Some ''aGVsbG8=''
   \<and> sample_engine (lenient_base64 ''aGVsbG8='')
        = Inr \<lparr>data_text = ''  HELLO   WORLD '' @ [CHR 0x0A], data_confidence = 87\<rparr>
   \<and> screen_data lenient_base64 sample_engine 1700000000300 ''host-1'' ''s-1''
         (JObj [(''data'', JStr ''aGVsbG8='')]) one_session =
       (one_session,
        [Broadcast ''s-1'' [''viewer-1'', ''viewer-2''] ''screen-data''
           (JObj [(''chunk'', JObj [(''data'', JStr ''aGVsbG8='')])]),
         OcrInvoke [0x68, 0x65, 0x6c, 0x6c, 0x6f],
         Send ''host-1'' ''ocr-result''
           (JObj [(''sessionId'', JStr ''s-1''), (''timestamp'', JNum 1700000000300),
                  (''text'', JStr (''  HELLO   WORLD '' @ [CHR 0x0A]))])])"
proof -
  let ?s = "\<lparr>id' = ''s-1'', host = ''host-1'', viewers = [''viewer-1'', ''viewer-2''],
           startTime = 1700000000000\<rparr>"
  let ?bad = "JObj [(''data'', JStr ''data:image/png;base64,!!!'')]"
  let ?good = "JObj [(''data'', JStr ''aGVsbG8='')]"
  let ?d = "\<lparr>data_text = ''  HELLO   WORLD '' @ [CHR 0x0A], data_confidence = 87\<rparr>"
  have h: "map_of (activeSessions one_session) ''s-1'' = Some ?s"
    by (simp add: one_session_sessions)
  have d: "lenient_base64 ''!!!'' = []"
    by (simp add: lenient_base64_def b64_value_def List.map_filter_def)
  have e: "sample_engine (lenient_base64 ''!!!'') = Inl (Error ''Error attempting to read image.'')"
    by (simp add: d sample_engine_def)
  have cd: "chunk_data ?bad = Inr (JStr ''data:image/png;base64,!!!'')"
    by (simp add: chunk_data_def)
  have fi: "frame_imageData ''data:image/png;base64,!!!'' = Some ''!!!''"
    by (simp add: frame_imageData_def split_comma_def index_def)
  have ne: "''!!!'' \<noteq> []"
    by simp
  note th = screen_data_broadcast_before_ocr [OF h, of lenient_base64 sample_engine
      1700000000300 "''host-1''" ?bad]
  note eq = th [THEN conjunct1]
  note failure = th [THEN conjunct2, THEN conjunct2, THEN conjunct2, THEN conjunct1,
      rule_format, OF conjI [OF cd conjI [OF fi conjI [OF ne e]]]]
  have bad: "screen_data lenient_base64 sample_engine 1700000000300 ''host-1'' ''s-1'' ?bad one_session =
       (one_session,
        [Broadcast ''s-1'' [''viewer-1'', ''viewer-2''] ''screen-data'' (JObj [(''chunk'', ?bad)]),
         OcrInvoke [],
         Send ''host-1'' ''error'' (JObj [(''message'', JStr ''Failed to process OCR'')])])"
    unfolding eq failure by (simp add: one_session_room d)
  have r: "sample_engine (lenient_base64 ''aGVsbG8='') = Inr ?d"
    by (simp add: sample_b64 sample_engine_def)
  have cd2: "chunk_data ?good = Inr (JStr ''aGVsbG8='')"
    by (simp add: chunk_data_def)
  have fi2: "frame_imageData ''aGVsbG8='' = Some ''aGVsbG8=''"
    by (simp add: frame_imageData_def split_comma_def index_def)
  have ne2: "''aGVsbG8='' \<noteq> []"
    by simp
  note th2 = screen_data_broadcast_before_ocr [OF h, of lenient_base64 sample_engine
      1700000000300 "''host-1''" ?good]
  note eq2 = th2 [THEN conjunct1]
  note success = th2 [THEN conjunct2, THEN conjunct2, THEN conjunct2, THEN conjunct2,
      THEN conjunct1, rule_format, OF conjI [OF cd2 conjI [OF fi2 conjI [OF ne2 r]]]]
  have good: "screen_data lenient_base64 sample_engine 1700000000300 ''host-1'' ''s-1'' ?good one_session =
       (one_session,
        [Broadcast ''s-1'' [''viewer-1'', ''viewer-2''] ''screen-data'' (JObj [(''chunk'', ?good)]),
         OcrInvoke [0x68, 0x65, 0x6c, 0x6c, 0x6f],
         Send ''host-1'' ''ocr-result''
           (JObj [(''sessionId'', JStr ''s-1''), (''timestamp'', JNum 1700000000300),
                  (''text'', JStr (''  HELLO   WORLD '' @ [CHR 0x0A]))])])"
    unfolding eq2 success by (simp add: one_session_room sample_b64)
  show ?thesis
    using h cd fi e bad cd2 fi2 r good by (intro conjI)
qed

text \<open>The same frame with a readable image: the sender, and only the sender, gets the text.\<close>

lemma screen_data_scenario_B:
  "snd (screen_data lenient_base64 sample_engine 1700000000300 ''host-1'' ''s-1''
         (JObj [(''data'', JStr ''data:image/png;base64,aGVsbG8='')]) one_session) =
        [Broadcast ''s-1'' [''viewer-1'', ''viewer-2''] ''screen-data''
           (JObj [(''chunk'', JObj [(''data'', JStr ''data:image/png;base64,aGVsbG8='')])]),
         OcrInvoke [0x68, 0x65, 0x6c, 0x6c, 0x6f],
         Send ''host-1'' ''ocr-result''
           (JObj [(''sessionId'', JStr ''s-1''), (''timestamp'', JNum 1700000000300),
                  (''text'', JStr (''  HELLO   WORLD '' @ [CHR 0x0A]))])]"
proof -
  have h: "map_of (activeSessions one_session) ''s-1'' =
     Some \<lparr>id' = ''s-1'', host = ''host-1'', viewers = [''viewer-1'', ''viewer-2''],
           startTime = 1700000000000\<rparr>"
    by (simp add: one_session_sessions)
  have cd: "chunk_data (JObj [(''data'', JStr ''data:image/png;base64,aGVsbG8='')])
      = Inr (JStr ''data:image/png;base64,aGVsbG8='')"
    by (simp add: chunk_data_def)
  have fi: "frame_imageData ''data:image/png;base64,aGVsbG8='' = Some ''aGVsbG8=''"
    by (simp add: frame_imageData_def split_comma_def index_def)
  have ne: "''aGVsbG8='' \<noteq> []" by simp
  show ?thesis
    by (simp add: screen_data_found [OF h] screen_ocr_image [OF cd fi ne] one_session_room
        sample_b64 sample_engine_def)
qed

text \<open>
  C10. The chunk of a \<open>screen-data\<close> message of an existing session is there (it is
  not \<open>null\<close> or \<open>undefined\<close>) and has no \<open>data\<close> field, or one that is not a
  string. Then the broadcast to the others is the handler's only effect: the sender
  receives nothing, neither an \<open>ocr-result\<close> nor an \<open>error\<close>, and the engine is not
  called.
\<close>

theorem screen_data_without_image:
  assumes "map_of (activeSessions st) sessionId = Some session"
    and "chunk \<noteq> JUndefined" and "chunk \<noteq> JNull"
    and "field chunk ''data'' = None \<or> (\<exists>d. field chunk ''data'' = Some d \<and> \<not> typeof_string d)"
  shows
    "screen_data decode recognize now c sessionId chunk st =
       (st, [Broadcast sessionId (removeAll c (rooms st sessionId)) ''screen-data''
               (JObj [(''chunk'', chunk)])])
     \<and> received c (snd (screen_data decode recognize now c sessionId chunk st)) = []"
proof -
  have "screen_ocr decode recognize now c sessionId chunk = []"
    using assms(2,3,4)
    by (cases chunk) (auto simp: screen_ocr_def chunk_data_def field_def split: option.splits)
  then have eq: "screen_data decode recognize now c sessionId chunk st =
       (st, [Broadcast sessionId (removeAll c (rooms st sessionId)) ''screen-data''
               (JObj [(''chunk'', chunk)])])"
    by (simp add: screen_data_found [OF assms(1)])
  have "count_list (removeAll c (rooms st sessionId)) c = 0"
    by (simp add: count_list_0_iff)
  then show ?thesis
    by (simp add: eq)
qed
theorem screen_data_without_image_witness:
  "map_of (activeSessions one_session) ''s-1'' =
     Some \<lparr>id' = ''s-1'', host = ''host-1'', viewers = [''viewer-1'', ''viewer-2''],
           startTime = 1700000000000\<rparr>
   \<and> JObj [(''data'', JNum 42)] \<noteq> JUndefined \<and> JObj [(''data'', JNum 42)] \<noteq> JNull
   \<and> field (JObj [(''data'', JNum 42)]) ''data'' = Some (JNum 42) \<and> \<not> typeof_string (JNum 42)
   \<and> screen_data lenient_base64 sample_engine 1700000000300 ''host-1'' ''s-1''
         (JObj [(''data'', JNum 42)]) one_session =
       (one_session,
        [Broadcast ''s-1'' [''viewer-1'', ''viewer-2''] ''screen-data''
           (JObj [(''chunk'', JObj [(''data'', JNum 42)])])])
   \<and> received ''host-1''
         (snd (screen_data lenient_base64 sample_engine 1700000000300 ''host-1'' ''s-1''
            (JObj [(''data'', JNum 42)]) one_session)) = []
   \<and> received ''viewer-1''
         (snd (screen_data lenient_base64 sample_engine 1700000000300 ''host-1'' ''s-1''
            (JObj [(''data'', JNum 42)]) one_session)) =
       [(''screen-data'', JObj [(''chunk'', JObj [(''data'', JNum 42)])])]"
proof -
  let ?s = "\<lparr>id' = ''s-1'', host = ''host-1'', viewers = [''viewer-1'', ''viewer-2''],
           startTime = 1700000000000\<rparr>"
  let ?chunk = "JObj [(''data'', JNum 42)]"
  have h: "map_of (activeSessions one_session) ''s-1'' = Some ?s"
    by (simp add: one_session_sessions)
  have u: "?chunk \<noteq> JUndefined" "?chunk \<noteq> JNull" by simp_all
  have f: "field ?chunk ''data'' = Some (JNum 42)" by (simp add: field_def)
  have n: "\<not> typeof_string (JNum 42)" by simp
  have d: "field ?chunk ''data'' = None \<or> (\<exists>d. field ?chunk ''data'' = Some d \<and> \<not> typeof_string d)"
    using f n by blast
  note th = screen_data_without_image [OF h u d, of lenient_base64 sample_engine 1700000000300 "''host-1''"]
  have eq: "screen_data lenient_base64 sample_engine 1700000000300 ''host-1'' ''s-1'' ?chunk one_session =
       (one_session,
        [Broadcast ''s-1'' [''viewer-1'', ''viewer-2''] ''screen-data'' (JObj [(''chunk'', ?chunk)])])"
    using th by (simp add: one_session_room)
  have r0: "received ''host-1''
         (snd (screen_data lenient_base64 sample_engine 1700000000300 ''host-1'' ''s-1'' ?chunk one_session)) = []"
    using th by blast
  have r1: "received ''viewer-1''
         (snd (screen_data lenient_base64 sample_engine 1700000000300 ''host-1'' ''s-1'' ?chunk one_session)) =
       [(''screen-data'', JObj [(''chunk'', ?chunk)])]"
    by (simp add: eq)
  show ?thesis
    using h u f n eq r0 r1 by (intro conjI)
qed

text \<open>
  A chunk that is missing altogether is another matter: reading \<open>chunk.data\<close>
  throws, and the sender is sent the \<open>error\<close> event of the \<open>catch\<close> block.
\<close>

lemma screen_data_null_chunk:
  "map_of (activeSessions st) sessionId = Some session \<Longrightarrow>
   chunk = JUndefined \<or> chunk = JNull \<Longrightarrow>
   snd (screen_data decode recognize now c sessionId chunk st) =
     [Broadcast sessionId (removeAll c (rooms st sessionId)) ''screen-data''
        (JObj [(''chunk'', chunk)]),
      Send c ''error'' (JObj [(''message'', JStr ''Failed to process OCR'')])]"
  by (auto simp: screen_data_found screen_ocr_def chunk_data_def error_event_def)

section \<open>join-session\<close>

lemma join_session_found:
  assumes "map_of (activeSessions st) sessionId = Some session"
  shows "activeSessions (fst (join_session c sessionId st)) =
           AList.update sessionId (session\<lparr>viewers := viewers session @ [c]\<rparr>) (activeSessions st)"
    and "rooms (fst (join_session c sessionId st)) = socket_join c sessionId (rooms st)"
    and "snd (join_session c sessionId st) =
           [Send c ''session-joined'' (JObj [(''sessionId'', JStr sessionId)]),
            Broadcast (host session) (socket_join c sessionId (rooms st) (host session))
              ''viewer-joined'' (JObj [(''viewerId'', JStr c)])]"
  using assms by (simp_all add: join_session_def registry_get_entry Let_def io_to_def)

lemma join_session_lookup:
  assumes "map_of (activeSessions st) sessionId = Some session"
  shows "map_of (activeSessions (fst (join_session c sessionId st))) sessionId =
           Some (session\<lparr>viewers := viewers session @ [c]\<rparr>)"
  by (simp add: join_session_found(1) [OF assms] update_conv')

lemma joins_lookup:
  "map_of (activeSessions st) sessionId = Some session \<Longrightarrow>
   map_of (activeSessions (joins n c sessionId st)) sessionId =
     Some (session\<lparr>viewers := viewers session @ replicate n c\<rparr>)"
proof (induction n arbitrary: st session)
  case 0
  then show ?case by simp
next
  case (Suc n)
  have "map_of (activeSessions (joins n c sessionId (fst (join_session c sessionId st)))) sessionId =
      Some (session\<lparr>viewers := viewers session @ [c]\<rparr>
              \<lparr>viewers := viewers (session\<lparr>viewers := viewers session @ [c]\<rparr>) @ replicate n c\<rparr>)"
    by (rule Suc.IH [OF join_session_lookup [OF Suc.prems]])
  then show ?case by (simp add: replicate_app_Cons_same)
qed

lemma socket_join_member: "c \<in> set (socket_join c room rs room)"
  by (simp add: socket_join_def)

lemma socket_join_same: "c \<in> set (rs room) \<Longrightarrow> socket_join c room rs = rs"
  by (auto simp: socket_join_def)

lemma socket_join_distinct: "distinct (rs r) \<Longrightarrow> distinct (socket_join c room rs r)"
  by (auto simp: socket_join_def)

lemma socket_join_idem: "socket_join c room (socket_join c room rs) = socket_join c room rs"
  by (rule socket_join_same) (rule socket_join_member)

lemma count_list_distinct: "distinct xs \<Longrightarrow> count_list xs x = (if x \<in> set xs then 1 else 0)"
  by (induction xs) auto

lemma joins_rooms:
  "map_of (activeSessions st) sessionId = Some session \<Longrightarrow>
   rooms (joins n c sessionId st) = (if n = 0 then rooms st else socket_join c sessionId (rooms st))"
proof (induction n arbitrary: st session)
  case 0
  then show ?case by simp
next
  case (Suc n)
  note l = join_session_lookup [OF Suc.prems, of c]
  have "rooms (joins n c sessionId (fst (join_session c sessionId st))) =
     (if n = 0 then socket_join c sessionId (rooms st)
      else socket_join c sessionId (socket_join c sessionId (rooms st)))"
    using Suc.IH [OF l] by (simp add: join_session_found(2) [OF Suc.prems])
  then show ?case
    by (simp add: socket_join_idem)
qed

text \<open>
  C2, as the code has it. For a session of the registry, \<open>join-session\<close> never fails:
  its effects are \<open>session-joined\<close> to the caller and \<open>viewer-joined\<close> to the host,
  the first time and every time after. The handler appends the caller to the viewers
  without looking for it there: after \<open>n\<close> calls the list has \<open>n\<close> more occurrences
  of the id. What does not change with repeated calls is the set of distinct viewers and
  the room, which holds the caller once.
\<close>

theorem join_session_appends:
  assumes "map_of (activeSessions st) sessionId = Some session"
  shows
    "snd (join_session c sessionId st) =
       [Send c ''session-joined'' (JObj [(''sessionId'', JStr sessionId)]),
        Broadcast (host session) (socket_join c sessionId (rooms st) (host session))
          ''viewer-joined'' (JObj [(''viewerId'', JStr c)])]
     \<and> map_of (activeSessions (joins n c sessionId st)) sessionId =
         Some (session\<lparr>viewers := viewers session @ replicate n c\<rparr>)
     \<and> count_list (viewers session @ replicate n c) c = count_list (viewers session) c + n
     \<and> (0 < n \<longrightarrow> set (viewers session @ replicate n c) = insert c (set (viewers session)))
     \<and> (0 < n \<longrightarrow> rooms (joins n c sessionId st) = socket_join c sessionId (rooms st))
     \<and> (distinct (rooms st sessionId) \<longrightarrow>
          count_list (socket_join c sessionId (rooms st) sessionId) c = 1)"
proof -
  have a: "map_of (activeSessions (joins n c sessionId st)) sessionId =
      Some (session\<lparr>viewers := viewers session @ replicate n c\<rparr>)"
    by (rule joins_lookup [OF assms])
  have b: "count_list (viewers session @ replicate n c) c = count_list (viewers session) c + n"
    by (induction n) simp_all
  have c: "0 < n \<longrightarrow> set (viewers session @ replicate n c) = insert c (set (viewers session))"
    by auto
  have d: "0 < n \<longrightarrow> rooms (joins n c sessionId st) = socket_join c sessionId (rooms st)"
    using joins_rooms [OF assms, of n c] by simp
  have e: "distinct (rooms st sessionId) \<longrightarrow>
          count_list (socket_join c sessionId (rooms st) sessionId) c = 1"
    using count_list_distinct [OF socket_join_distinct, of "rooms st" sessionId c sessionId c]
    by (simp add: socket_join_member)
  show ?thesis
    using join_session_found(3) [OF assms, of c] a b c d e by (intro conjI)
qed

theorem join_session_appends_witness:
  "map_of (activeSessions one_session) ''s-1'' =
     Some \<lparr>id' = ''s-1'', host = ''host-1'', viewers = [''viewer-1'', ''viewer-2''],
           startTime = 1700000000000\<rparr>
   \<and> map_of (activeSessions (joins 2 ''viewer-1'' ''s-1'' one_session)) ''s-1'' =
     Some \<lparr>id' = ''s-1'', host = ''host-1'',
           viewers = [''viewer-1'', ''viewer-2'', ''viewer-1'', ''viewer-1''],
           startTime = 1700000000000\<rparr>
   \<and> snd (join_session ''viewer-1'' ''s-1'' one_session) =
       [Send ''viewer-1'' ''session-joined'' (JObj [(''sessionId'', JStr ''s-1'')]),
        Broadcast ''host-1'' [''host-1''] ''viewer-joined'' (JObj [(''viewerId'', JStr ''viewer-1'')])]
   \<and> distinct (rooms one_session ''s-1'')
   \<and> rooms (joins 2 ''viewer-1'' ''s-1'' one_session) ''s-1'' = [''host-1'', ''viewer-1'', ''viewer-2'']
   \<and> count_list [''host-1'', ''viewer-1'', ''viewer-2''] ''viewer-1'' = 1"
proof -
  let ?s = "\<lparr>id' = ''s-1'', host = ''host-1'', viewers = [''viewer-1'', ''viewer-2''],
           startTime = 1700000000000\<rparr>"
  have h: "map_of (activeSessions one_session) ''s-1'' = Some ?s"
    by (simp add: one_session_sessions)
  have dr: "distinct (rooms one_session ''s-1'')"
    by (simp add: one_session_room)
  have sj: "socket_join ''viewer-1'' ''s-1'' (rooms one_session) ''s-1''
      = [''host-1'', ''viewer-1'', ''viewer-2'']"
    by (simp add: socket_join_def one_session_room)
  note th = join_session_appends [OF h, of "''viewer-1''" 2]
  have l: "map_of (activeSessions (joins 2 ''viewer-1'' ''s-1'' one_session)) ''s-1'' =
     Some \<lparr>id' = ''s-1'', host = ''host-1'',
           viewers = [''viewer-1'', ''viewer-2'', ''viewer-1'', ''viewer-1''],
           startTime = 1700000000000\<rparr>"
    using th [THEN conjunct2, THEN conjunct1] by (simp add: numeral_2_eq_2)
  have e: "snd (join_session ''viewer-1'' ''s-1'' one_session) =
       [Send ''viewer-1'' ''session-joined'' (JObj [(''sessionId'', JStr ''s-1'')]),
        Broadcast ''host-1'' [''host-1''] ''viewer-joined'' (JObj [(''viewerId'', JStr ''viewer-1'')])]"
    using th [THEN conjunct1] by (simp add: socket_join_def one_session_room_host)
  have "rooms (joins 2 ''viewer-1'' ''s-1'' one_session)
      = socket_join ''viewer-1'' ''s-1'' (rooms one_session)"
    using th [THEN conjunct2, THEN conjunct2, THEN conjunct2, THEN conjunct2, THEN conjunct1]
    by simp
  then have r: "rooms (joins 2 ''viewer-1'' ''s-1'' one_session) ''s-1''
      = [''host-1'', ''viewer-1'', ''viewer-2'']"
    by (simp only: sj)
  have "count_list (socket_join ''viewer-1'' ''s-1'' (rooms one_session) ''s-1'') ''viewer-1'' = 1"
    using th [THEN conjunct2, THEN conjunct2, THEN conjunct2, THEN conjunct2, THEN conjunct2] dr
    by blast
  then have k: "count_list [''host-1'', ''viewer-1'', ''viewer-2''] ''viewer-1'' = 1"
    by (simp only: sj)
  show ?thesis
    using h l e dr r k by (intro conjI)
qed

text \<open>
  C2 as stated fails. In \<open>one_session\<close> the connection \<open>viewer-1\<close> has joined once;
  when it joins again, the viewer list holds it twice.
\<close>

theorem join_session_twice_counterexample:
  "map_of (activeSessions (fst (join_session ''viewer-1'' ''s-1'' one_session))) ''s-1'' =
     Some \<lparr>id' = ''s-1'', host = ''host-1'',
           viewers = [''viewer-1'', ''viewer-2'', ''viewer-1''],
           startTime = 1700000000000\<rparr>
   \<and> count_list [''viewer-1'', ''viewer-2'', ''viewer-1''] ''viewer-1'' = 2
   \<and> \<not> distinct [''viewer-1'', ''viewer-2'', ''viewer-1'']"
  by (simp add: join_session_def registry_get_def one_session_sessions Let_def)

section \<open>disconnect\<close>

subsection \<open>The invariant\<close>

lemma update_cases:
  "(k', v') \<in> set (AList.update k v al) \<Longrightarrow> (k', v') = (k, v) \<or> (k', v') \<in> set al"
  by (induction al) (auto split: if_splits)

lemma sweep_entries:
  "(k, s') \<in> set (fst (sweep c rs al)) \<Longrightarrow>
   \<exists>s. (k, s) \<in> set al \<and> host s \<noteq> c \<and> s' = s\<lparr>viewers := filter (\<lambda>i. i \<noteq> c) (viewers s)\<rparr>"
proof (induction al)
  case Nil
  then show ?case by simp
next
  case (Cons a al)
  obtain k0 s0 where a: "a = (k0, s0)" by (cases a)
  have id: "c \<notin> set (viewers s0) \<Longrightarrow> filter (\<lambda>i. i \<noteq> c) (viewers s0) = viewers s0"
    by (induction "viewers s0") (auto simp: filter_id_conv)
  show ?case
    using Cons id unfolding a
    by (auto split: prod.splits if_splits)
qed

lemma sweep_keys:
  "map fst (fst (sweep c rs al)) = map fst (filter (\<lambda>p. host (snd p) \<noteq> c) al)"
  by (induction al) (auto simp: split_beta)

lemma subscribedI:
  "(\<And>k s x. (k, s) \<in> set (activeSessions st) \<Longrightarrow> x \<in> set (viewers s)
      \<Longrightarrow> x \<in> set (rooms st k)) \<Longrightarrow> subscribed st"
  by (auto simp: subscribed_def)

lemma subscribedD:
  "subscribed st \<Longrightarrow> (k, s) \<in> set (activeSessions st) \<Longrightarrow> x \<in> set (viewers s)
     \<Longrightarrow> x \<in> set (rooms st k)"
  by (fastforce simp: subscribed_def)

lemma invariant_initial: "invariant initial"
  by (simp add: invariant_def subscribed_def initial_def)

lemma set_socket_join:
  "set (socket_join c room rs r) = (if r = room then insert c (set (rs r)) else set (rs r))"
  by (auto simp: socket_join_def)

lemma socket_join_mono: "x \<in> set (rs r) \<Longrightarrow> x \<in> set (socket_join c room rs r)"
  by (auto simp: set_socket_join)

lemma invariant_connect:
  assumes "invariant st"
  shows "invariant (fst (connect c st))"
proof -
  have "subscribed (fst (connect c st))"
  proof (rule subscribedI)
    fix k s x
    assume "(k, s) \<in> set (activeSessions (fst (connect c st)))" and x: "x \<in> set (viewers s)"
    then have "(k, s) \<in> set (activeSessions st)"
      by (simp add: connect_def)
    then have "x \<in> set (rooms st k)"
      using assms x by (auto simp: invariant_def dest: subscribedD)
    then show "x \<in> set (rooms (fst (connect c st)) k)"
      by (simp add: connect_def socket_join_mono)
  qed
  then show ?thesis
    using assms by (simp add: invariant_def connect_def socket_join_distinct)
qed

lemma invariant_create_session:
  assumes "invariant st"
  shows "invariant (fst (create_session c sessionId now st))"
proof -
  let ?new = "\<lparr>id' = sessionId, host = c, viewers = [], startTime = now\<rparr>"
  have "subscribed (fst (create_session c sessionId now st))"
  proof (rule subscribedI)
    fix k s x
    assume "(k, s) \<in> set (activeSessions (fst (create_session c sessionId now st)))"
      and x: "x \<in> set (viewers s)"
    then have "(k, s) \<in> set (AList.update sessionId ?new (activeSessions st))"
      by (simp add: create_session_def)
    then have "(k, s) = (sessionId, ?new) \<or> (k, s) \<in> set (activeSessions st)"
      by (rule update_cases)
    with x have "(k, s) \<in> set (activeSessions st)"
      by auto
    then have "x \<in> set (rooms st k)"
      using assms x by (auto simp: invariant_def dest: subscribedD)
    then show "x \<in> set (rooms (fst (create_session c sessionId now st)) k)"
      by (simp add: create_session_def socket_join_mono)
  qed
  then show ?thesis
    using assms by (simp add: invariant_def create_session_def socket_join_distinct distinct_update)
qed

lemma invariant_join_session:
  assumes "invariant st"
  shows "invariant (fst (join_session c sessionId st))"
proof (cases "map_of (activeSessions st) sessionId")
  case None
  then show ?thesis using assms by (simp add: join_session_def registry_get_def)
next
  case (Some session)
  let ?new = "session\<lparr>viewers := viewers session @ [c]\<rparr>"
  note found = join_session_found [OF Some, of c]
  have mem: "(sessionId, session) \<in> set (activeSessions st)"
    using Some by (rule map_of_SomeD)
  have "subscribed (fst (join_session c sessionId st))"
  proof (rule subscribedI)
    fix k s x
    assume "(k, s) \<in> set (activeSessions (fst (join_session c sessionId st)))"
      and x: "x \<in> set (viewers s)"
    then have "(k, s) \<in> set (AList.update sessionId ?new (activeSessions st))"
      by (simp add: found)
    then have "(k, s) = (sessionId, ?new) \<or> (k, s) \<in> set (activeSessions st)"
      by (rule update_cases)
    then show "x \<in> set (rooms (fst (join_session c sessionId st)) k)"
    proof
      assume new: "(k, s) = (sessionId, ?new)"
      then have "x = c \<or> x \<in> set (viewers session)"
        using x by auto
      then show ?thesis
      proof
        assume "x = c"
        then show ?thesis using new by (simp add: found socket_join_member)
      next
        assume "x \<in> set (viewers session)"
        then have "x \<in> set (rooms st sessionId)"
          using assms mem by (auto simp: invariant_def dest: subscribedD)
        then show ?thesis using new by (simp add: found socket_join_mono)
      qed
    next
      assume "(k, s) \<in> set (activeSessions st)"
      then have "x \<in> set (rooms st k)"
        using assms x by (auto simp: invariant_def dest: subscribedD)
      then show ?thesis by (simp add: found socket_join_mono)
    qed
  qed
  then show ?thesis
    using assms by (simp add: invariant_def found socket_join_distinct distinct_update)
qed

lemma invariant_disconnect:
  assumes "invariant st"
  shows "invariant (fst (disconnect c st))"
proof -
  have sub: "subscribed (fst (disconnect c st))"
    unfolding subscribed_def disconnect_simps
  proof (intro ballI, clarify)
    fix k s' x
    assume "(k, s') \<in> set (fst (sweep c (leave_all c (rooms st)) (activeSessions st)))"
      and x: "x \<in> set (viewers s')"
    then obtain s where s: "(k, s) \<in> set (activeSessions st)"
      and s': "s' = s\<lparr>viewers := filter (\<lambda>i. i \<noteq> c) (viewers s)\<rparr>"
      using sweep_entries by blast
    from x s' have "x \<in> set (viewers s)" "x \<noteq> c" by auto
    moreover have "set (viewers s) \<subseteq> set (rooms st k)"
      using assms s by (auto simp: invariant_def subscribed_def)
    ultimately show "x \<in> set (leave_all c (rooms st) k)"
      by (auto simp: leave_all_def)
  qed
  have dis: "\<forall>room. distinct (rooms (fst (disconnect c st)) room)"
    using assms by (simp add: invariant_def disconnect_simps leave_all_def distinct_removeAll)
  have keys: "distinct (map fst (activeSessions (fst (disconnect c st))))"
    using assms by (simp add: invariant_def disconnect_simps sweep_keys distinct_map_filter)
  show ?thesis
    using sub dis keys by (simp add: invariant_def)
qed

lemma invariant_step: "invariant st \<Longrightarrow> invariant (fst (step decode recognize ev st))"
proof (cases ev)
  case (ScreenData c sessionId chunk now)
  then show "invariant st \<Longrightarrow> ?thesis"
    by (simp add: screen_data_def split: lookup.splits)
next
  case (RequestOcr c sessionId imageData now)
  then show "invariant st \<Longrightarrow> ?thesis"
    by (simp add: request_ocr_def split: lookup.splits)
qed (simp_all add: invariant_connect invariant_create_session invariant_join_session
       invariant_disconnect)

lemma reachable_invariant: "reachable st \<Longrightarrow> invariant st"
  by (induction rule: reachable.induct) (simp_all add: invariant_initial invariant_step)

lemma reachable_run: "reachable st \<Longrightarrow> reachable (fst (run decode recognize evs st))"
proof (induction evs arbitrary: st)
  case Nil
  then show ?case by simp
next
  case (Cons ev evs)
  have "reachable (fst (step decode recognize ev st))"
    using Cons.prems by (rule reachable_step)
  then have "reachable (fst (run decode recognize evs (fst (step decode recognize ev st))))"
    by (rule Cons.IH)
  then show ?case
    by (simp add: split_beta)
qed

lemma reachable_one_session: "reachable one_session"
  unfolding one_session_def by (rule reachable_run [OF reachable_initial])

subsection \<open>The sweep over the registry\<close>

lemma sweep_silent:
  "k \<notin> fst ` set al \<Longrightarrow>
   \<not> list_ex (announces k) (snd (sweep c rs al)) \<and> DeleteSession k \<notin> set (snd (sweep c rs al))"
  by (induction al) (auto simp: split_beta io_to_def split: if_splits)

lemma sweep_announce:
  assumes "(k, s) \<in> set al" and "host s = c" and "distinct (map fst al)"
  shows "\<exists>pre post.
     snd (sweep c rs al) =
       pre @ Broadcast k (rs k) ''session-ended'' (JObj [(''message'', JStr ''Host has disconnected'')])
           # DeleteSession k # post
     \<and> \<not> list_ex (announces k) (pre @ post) \<and> DeleteSession k \<notin> set (pre @ post)"
  using assms
proof (induction al)
  case Nil
  then show ?case by simp
next
  case (Cons a al)
  obtain k0 s0 where a: "a = (k0, s0)" by (cases a)
  let ?B = "Broadcast k (rs k) ''session-ended'' (JObj [(''message'', JStr ''Host has disconnected'')])"
  show ?case
  proof (cases "(k, s) = (k0, s0)")
    case True
    then have fresh: "k \<notin> fst ` set al"
      using Cons.prems(3) a by auto
    have "snd (sweep c rs (a # al)) = [] @ ?B # DeleteSession k # snd (sweep c rs al)"
      using True Cons.prems(2) a by (simp add: split_beta io_to_def)
    moreover have "\<not> list_ex (announces k) ([] @ snd (sweep c rs al))"
      "DeleteSession k \<notin> set ([] @ snd (sweep c rs al))"
      using sweep_silent [OF fresh, of c rs] by simp_all
    ultimately show ?thesis by blast
  next
    case False
    then have mem: "(k, s) \<in> set al"
      using Cons.prems(1) a by auto
    have dist: "distinct (map fst al)"
      using Cons.prems(3) by simp
    have neq: "k \<noteq> k0"
      using mem Cons.prems(3) a by (auto simp: image_iff)
    from Cons.IH [OF mem Cons.prems(2) dist] obtain pre post where
      tr: "snd (sweep c rs al) = pre @ ?B # DeleteSession k # post"
      and quiet: "\<not> list_ex (announces k) (pre @ post)" "DeleteSession k \<notin> set (pre @ post)"
      by blast
    obtain h where h: "snd (sweep c rs (a # al)) = h @ snd (sweep c rs al)"
      and hq: "\<not> list_ex (announces k) h" "DeleteSession k \<notin> set h"
    proof (cases "host s0 = c")
      case True
      show ?thesis
        by (rule that [of "[io_to k0 ''session-ended''
              (JObj [(''message'', JStr ''Host has disconnected'')]) rs, DeleteSession k0]"])
           (use True neq a in \<open>simp_all add: split_beta io_to_def\<close>)
    next
      case False
      show ?thesis
      proof (cases "c \<in> set (viewers s0)")
        case True
        show ?thesis
          by (rule that [of "[io_to (host s0) ''viewer-left'' (JObj [(''viewerId'', JStr c)]) rs]"])
             (use True False a in \<open>simp_all add: split_beta io_to_def\<close>)
      next
        case nov: False
        show ?thesis
          by (rule that [of "[]"]) (use nov False a in \<open>simp_all add: split_beta\<close>)
      qed
    qed
    have "snd (sweep c rs (a # al)) = (h @ pre) @ ?B # DeleteSession k # post"
      by (simp add: h tr)
    moreover have "\<not> list_ex (announces k) ((h @ pre) @ post)"
      "DeleteSession k \<notin> set ((h @ pre) @ post)"
      using hq quiet by simp_all
    ultimately show ?thesis by blast
  qed
qed

lemma sweep_lookup_ended:
  assumes "(k, s) \<in> set al" and "host s = c" and "distinct (map fst al)"
  shows "map_of (fst (sweep c rs al)) k = None"
proof -
  have "k \<notin> fst ` set (filter (\<lambda>p. host (snd p) \<noteq> c) al)"
  proof
    assume "k \<in> fst ` set (filter (\<lambda>p. host (snd p) \<noteq> c) al)"
    then obtain s' where s': "(k, s') \<in> set al" "host s' \<noteq> c"
      by auto
    from s'(1) assms(1,3) have "s' = s"
      by (meson eq_key_imp_eq_value)
    with s'(2) assms(2) show False by simp
  qed
  then have "k \<notin> set (map fst (fst (sweep c rs al)))"
    by (simp add: sweep_keys)
  then show ?thesis
    by (simp add: map_of_eq_None_iff)
qed

lemma sweep_clean:
  "(k, s') \<in> set (fst (sweep c rs al)) \<Longrightarrow> host s' \<noteq> c \<and> c \<notin> set (viewers s')"
  using sweep_entries [of k s' c rs al] by auto

lemma sweep_noop:
  "\<forall>p \<in> set al. host (snd p) \<noteq> c \<and> c \<notin> set (viewers (snd p)) \<Longrightarrow> sweep c rs al = (al, [])"
  by (induction al) (auto simp: split_beta)

lemma sweep_twice: "sweep c rs' (fst (sweep c rs al)) = (fst (sweep c rs al), [])"
proof (rule sweep_noop, rule ballI)
  fix p
  assume "p \<in> set (fst (sweep c rs al))"
  then have "(fst p, snd p) \<in> set (fst (sweep c rs al))" by simp
  then show "host (snd p) \<noteq> c \<and> c \<notin> set (viewers (snd p))"
    by (rule sweep_clean)
qed

lemma leave_all_idem: "leave_all c (leave_all c rs) = leave_all c rs"
  by (simp add: leave_all_def)

lemma on_disconnect_twice:
  "on_disconnect c (fst (on_disconnect c st)) = (fst (on_disconnect c st), [])"
  by (simp add: on_disconnect_def split_beta sweep_twice)

lemma disconnect_twice:
  "disconnect c (fst (disconnect c st)) = (fst (disconnect c st), [])"
  by (simp add: disconnect_def on_disconnect_def split_beta sweep_twice leave_all_idem)

lemma on_disconnect_after_disconnect:
  "on_disconnect c (fst (disconnect c st)) = (fst (disconnect c st), [])"
  by (simp add: disconnect_def on_disconnect_twice)

text \<open>How many \<open>session-ended\<close> packets the sweep sends to one connection.\<close>

lemma ended_received_sweep:
  "ended_received v (snd (sweep c rs al)) =
     sum_list (map (\<lambda>p. count_list (rs (fst p)) v) (filter (\<lambda>p. host (snd p) = c) al))"
  by (induction al) (auto simp: ended_received_def split_beta io_to_def)

lemma sum_counts_rooms:
  assumes "\<forall>room. distinct (rs room)" and "v \<noteq> c"
  shows "sum_list (map (\<lambda>p. count_list (leave_all c rs (fst p)) v) xs) =
         length (filter (\<lambda>p. v \<in> set (rs (fst p))) xs)"
proof (induction xs)
  case Nil
  then show ?case by simp
next
  case (Cons p xs)
  have "distinct (removeAll c (rs (fst p)))"
    using assms(1) by (simp add: distinct_removeAll)
  then have "count_list (removeAll c (rs (fst p))) v =
      (if v \<in> set (removeAll c (rs (fst p))) then 1 else 0)"
    by (rule count_list_distinct)
  then have "count_list (leave_all c rs (fst p)) v = (if v \<in> set (rs (fst p)) then 1 else 0)"
    using assms(2) by (simp add: leave_all_def)
  then show ?case
    using Cons.IH by simp
qed

lemma length_filter_key:
  "distinct (map fst al) \<Longrightarrow> (k, s) \<in> set al \<Longrightarrow> length (filter (\<lambda>p. fst p = k) al) = 1"
proof (induction al)
  case Nil
  then show ?case by simp
next
  case (Cons a al)
  show ?case
  proof (cases "fst a = k")
    case True
    then have "k \<notin> fst ` set al"
      using Cons.prems(1) by auto
    then have "filter (\<lambda>p. fst p = k) al = []"
      by (auto simp: filter_empty_conv)
    then show ?thesis
      using True by simp
  next
    case False
    then have "(k, s) \<in> set al"
      using Cons.prems(2) by auto
    then have "length (filter (\<lambda>p. fst p = k) al) = 1"
      using Cons.IH Cons.prems(1) by simp
    then show ?thesis
      using False by simp
  qed
qed

text \<open>
  C3. In a state the server can reach, the connection \<open>c\<close> is the host of a session
  and \<open>v\<close> is another connection among its viewers. When \<open>c\<close> disconnects, the
  effects contain the announcement \<open>session-ended\<close> to the room of the session
  directly before the deletion of the session, and no second announcement or deletion
  for that session; \<open>v\<close> is among the receivers of the announcement exactly once. In
  all, \<open>v\<close> is sent as many \<open>session-ended\<close> packets as \<open>c\<close> hosted sessions
  to whose rooms \<open>v\<close> belongs, so exactly one when this session is the only one \<open>c\<close>
  hosts. Afterwards the registry has no entry for the session. Handling the
  disconnection of \<open>c\<close> once more, with or without the library's part, changes
  nothing and sends nothing.
\<close>

theorem host_disconnect_ends_session:
  assumes reach: "reachable st"
    and sess: "map_of (activeSessions st) sessionId = Some session"
    and hst: "host session = c"
    and vw: "v \<in> set (viewers session)"
    and neq: "v \<noteq> c"
  shows
    "(\<exists>pre post.
        snd (disconnect c st) =
          pre @ Broadcast sessionId (removeAll c (rooms st sessionId)) ''session-ended''
                  (JObj [(''message'', JStr ''Host has disconnected'')])
              # DeleteSession sessionId # post
        \<and> \<not> list_ex (announces sessionId) (pre @ post)
        \<and> DeleteSession sessionId \<notin> set (pre @ post))
     \<and> count_list (removeAll c (rooms st sessionId)) v = 1
     \<and> ended_received v (snd (disconnect c st)) =
         length (filter (\<lambda>p. host (snd p) = c \<and> v \<in> set (rooms st (fst p))) (activeSessions st))
     \<and> ((\<forall>p \<in> set (activeSessions st). host (snd p) = c \<longrightarrow> fst p = sessionId) \<longrightarrow>
          ended_received v (snd (disconnect c st)) = 1)
     \<and> map_of (activeSessions (fst (disconnect c st))) sessionId = None
     \<and> disconnect c (fst (disconnect c st)) = (fst (disconnect c st), [])
     \<and> on_disconnect c (fst (disconnect c st)) = (fst (disconnect c st), [])"
proof -
  have inv: "invariant st"
    using reach by (rule reachable_invariant)
  have keys: "distinct (map fst (activeSessions st))"
    and dist: "\<forall>room. distinct (rooms st room)"
    and sub: "subscribed st"
    using inv by (simp_all add: invariant_def)
  have mem: "(sessionId, session) \<in> set (activeSessions st)"
    using sess by (rule map_of_SomeD)
  have vroom: "v \<in> set (rooms st sessionId)"
    using sub mem vw by (rule subscribedD)
  have 1: "\<exists>pre post.
        snd (disconnect c st) =
          pre @ Broadcast sessionId (removeAll c (rooms st sessionId)) ''session-ended''
                  (JObj [(''message'', JStr ''Host has disconnected'')])
              # DeleteSession sessionId # post
        \<and> \<not> list_ex (announces sessionId) (pre @ post)
        \<and> DeleteSession sessionId \<notin> set (pre @ post)"
    using sweep_announce [OF mem hst keys, of "leave_all c (rooms st)"]
    by (simp add: disconnect_simps leave_all_def)
  have "distinct (removeAll c (rooms st sessionId))"
    using dist by (simp add: distinct_removeAll)
  then have "count_list (removeAll c (rooms st sessionId)) v =
      (if v \<in> set (removeAll c (rooms st sessionId)) then 1 else 0)"
    by (rule count_list_distinct)
  then have 2: "count_list (removeAll c (rooms st sessionId)) v = 1"
    using vroom neq by simp
  have 3: "ended_received v (snd (disconnect c st)) =
         length (filter (\<lambda>p. host (snd p) = c \<and> v \<in> set (rooms st (fst p))) (activeSessions st))"
    by (simp add: disconnect_simps ended_received_sweep sum_counts_rooms [OF dist neq])
  have 4: "(\<forall>p \<in> set (activeSessions st). host (snd p) = c \<longrightarrow> fst p = sessionId) \<longrightarrow>
          ended_received v (snd (disconnect c st)) = 1"
  proof
    assume only: "\<forall>p \<in> set (activeSessions st). host (snd p) = c \<longrightarrow> fst p = sessionId"
    have "filter (\<lambda>p. host (snd p) = c \<and> v \<in> set (rooms st (fst p))) (activeSessions st)
        = filter (\<lambda>p. fst p = sessionId) (activeSessions st)"
    proof (rule filter_cong [OF refl])
      fix p
      assume p: "p \<in> set (activeSessions st)"
      show "(host (snd p) = c \<and> v \<in> set (rooms st (fst p))) = (fst p = sessionId)"
      proof
        assume "host (snd p) = c \<and> v \<in> set (rooms st (fst p))"
        then show "fst p = sessionId"
          using only p by blast
      next
        assume k: "fst p = sessionId"
        then have "(sessionId, snd p) \<in> set (activeSessions st)"
          using p by (metis prod.collapse)
        then have "snd p = session"
          using keys mem by (meson eq_key_imp_eq_value)
        then show "host (snd p) = c \<and> v \<in> set (rooms st (fst p))"
          using k hst vroom by simp
      qed
    qed
    then show "ended_received v (snd (disconnect c st)) = 1"
      unfolding 3 by (simp only: length_filter_key [OF keys mem])
  qed
  have 5: "map_of (activeSessions (fst (disconnect c st))) sessionId = None"
    by (simp add: disconnect_simps sweep_lookup_ended [OF mem hst keys])
  show ?thesis
    using 1 2 3 4 5 disconnect_twice [of c st] on_disconnect_after_disconnect [of c st]
    by (intro conjI)
qed
theorem host_disconnect_ends_session_witness:
  "reachable one_session
   \<and> map_of (activeSessions one_session) ''s-1'' =
     Some \<lparr>id' = ''s-1'', host = ''host-1'', viewers = [''viewer-1'', ''viewer-2''],
           startTime = 1700000000000\<rparr>
   \<and> ''viewer-1'' \<in> set [''viewer-1'', ''viewer-2''] \<and> ''viewer-1'' \<noteq> ''host-1''
   \<and> snd (disconnect ''host-1'' one_session) =
       [Broadcast ''s-1'' [''viewer-1'', ''viewer-2''] ''session-ended''
          (JObj [(''message'', JStr ''Host has disconnected'')]),
        DeleteSession ''s-1'']
   \<and> ended_received ''viewer-1'' (snd (disconnect ''host-1'' one_session)) = 1
   \<and> map_of (activeSessions (fst (disconnect ''host-1'' one_session))) ''s-1'' = None
   \<and> disconnect ''host-1'' (fst (disconnect ''host-1'' one_session)) =
       (fst (disconnect ''host-1'' one_session), [])"
proof -
  let ?s = "\<lparr>id' = ''s-1'', host = ''host-1'', viewers = [''viewer-1'', ''viewer-2''],
           startTime = 1700000000000\<rparr>"
  have h: "map_of (activeSessions one_session) ''s-1'' = Some ?s"
    by (simp add: one_session_sessions)
  have hst: "host ?s = ''host-1''" by simp
  have vw: "''viewer-1'' \<in> set (viewers ?s)" by simp
  have vw': "''viewer-1'' \<in> set [''viewer-1'', ''viewer-2'']" by simp
  have neq: "''viewer-1'' \<noteq> ''host-1''" by simp
  have only: "\<forall>p \<in> set (activeSessions one_session). host (snd p) = ''host-1'' \<longrightarrow> fst p = ''s-1''"
    by (simp add: one_session_sessions)
  note th = host_disconnect_ends_session [OF reachable_one_session h hst vw neq]
  have tr: "snd (disconnect ''host-1'' one_session) =
       [Broadcast ''s-1'' [''viewer-1'', ''viewer-2''] ''session-ended''
          (JObj [(''message'', JStr ''Host has disconnected'')]),
        DeleteSession ''s-1'']"
    by (simp add: disconnect_simps one_session_sessions leave_all_def one_session_room io_to_def)
  have one: "ended_received ''viewer-1'' (snd (disconnect ''host-1'' one_session)) = 1"
    using th [THEN conjunct2, THEN conjunct2, THEN conjunct2, THEN conjunct1] only by blast
  note gone = th [THEN conjunct2, THEN conjunct2, THEN conjunct2, THEN conjunct2, THEN conjunct1]
  note again = th [THEN conjunct2, THEN conjunct2, THEN conjunct2, THEN conjunct2,
      THEN conjunct2, THEN conjunct1]
  show ?thesis
    using reachable_one_session h vw' neq tr one gone again by (intro conjI)
qed

text \<open>A viewer that disconnects is taken off the list, and the host is told.\<close>

lemma viewer_disconnect_example:
  "disconnect ''viewer-1'' one_session =
     (\<lparr>activeSessions =
         [(''s-1'', \<lparr>id' = ''s-1'', host = ''host-1'', viewers = [''viewer-2''],
             startTime = 1700000000000\<rparr>)],
       rooms = leave_all ''viewer-1'' (rooms one_session)\<rparr>,
      [Broadcast ''host-1'' [''host-1''] ''viewer-left'' (JObj [(''viewerId'', JStr ''viewer-1'')])])"
  by (simp add: disconnect_def on_disconnect_def one_session_sessions io_to_def leave_all_def
      one_session_room_host)

section \<open>request-ocr\<close>

lemma request_ocr_without_comma:
  assumes "map_of (activeSessions st) sessionId = Some session" and "CHR '','' \<notin> set s"
  shows "request_ocr decode recognize now c sessionId (JStr s) st =
     (st, [Send c ''error'' (JObj [(''message'', JStr ''Invalid image data'')])])"
proof -
  have "\<not> 1 < length (split_comma s)"
    using assms(2) by (simp add: length_split_comma del: One_nat_def)
  then have "index (split_comma s) 1 = None"
    by (simp add: index_def del: One_nat_def)
  then show ?thesis
    using assms(1) by (simp add: request_ocr_def registry_get_entry error_event_def del: One_nat_def)
qed

text \<open>
  C6 against the code. A raw base64 string has no comma, so \<open>split(',')[1]\<close> is
  \<open>undefined\<close> and \<open>request-ocr\<close> answers \<open>Invalid image data\<close> without calling
  the engine. The same text behind a scheme prefix is read, and the two other entry
  points (\<open>screen-data\<close> and \<open>extract_text\<close>) read the raw string as well.
\<close>

theorem request_ocr_raw_base64_refused:
  "request_ocr lenient_base64 sample_engine 1700000000300 ''viewer-1'' ''s-1''
       (JStr ''aGVsbG8='') one_session =
     (one_session, [Send ''viewer-1'' ''error'' (JObj [(''message'', JStr ''Invalid image data'')])])
   \<and> request_ocr lenient_base64 sample_engine 1700000000300 ''viewer-1'' ''s-1''
       (JStr ''data:image/png;base64,aGVsbG8='') one_session =
     (one_session,
      [OcrInvoke [0x68, 0x65, 0x6c, 0x6c, 0x6f],
       Send ''viewer-1'' ''ocr-result''
         (JObj [(''sessionId'', JStr ''s-1''), (''timestamp'', JNum 1700000000300),
                (''text'', JStr (''  HELLO   WORLD '' @ [CHR 0x0A]))])])
   \<and> snd (screen_data lenient_base64 sample_engine 1700000000300 ''viewer-1'' ''s-1''
         (JObj [(''data'', JStr ''aGVsbG8='')]) one_session) =
      [Broadcast ''s-1'' [''host-1'', ''viewer-2''] ''screen-data''
         (JObj [(''chunk'', JObj [(''data'', JStr ''aGVsbG8='')])]),
       OcrInvoke [0x68, 0x65, 0x6c, 0x6c, 0x6f],
       Send ''viewer-1'' ''ocr-result''
         (JObj [(''sessionId'', JStr ''s-1''), (''timestamp'', JNum 1700000000300),
                (''text'', JStr (''  HELLO   WORLD '' @ [CHR 0x0A]))])]
   \<and> engine_calls (extract_text lenient_base64 sample_engine sample_clock ''aGVsbG8='' fresh_metrics)
        = [[0x68, 0x65, 0x6c, 0x6c, 0x6f]]"
proof -
  have 1: "request_ocr lenient_base64 sample_engine 1700000000300 ''viewer-1'' ''s-1''
       (JStr ''aGVsbG8='') one_session =
     (one_session, [Send ''viewer-1'' ''error'' (JObj [(''message'', JStr ''Invalid image data'')])])"
    by (simp add: request_ocr_def registry_get_def one_session_sessions split_comma_def index_def
        error_event_def)
  have 2: "request_ocr lenient_base64 sample_engine 1700000000300 ''viewer-1'' ''s-1''
       (JStr ''data:image/png;base64,aGVsbG8='') one_session =
     (one_session,
      [OcrInvoke [0x68, 0x65, 0x6c, 0x6c, 0x6f],
       Send ''viewer-1'' ''ocr-result''
         (JObj [(''sessionId'', JStr ''s-1''), (''timestamp'', JNum 1700000000300),
                (''text'', JStr (''  HELLO   WORLD '' @ [CHR 0x0A]))])])"
    by (simp add: request_ocr_def registry_get_def one_session_sessions split_comma_def index_def
        perform_ocr_def ocr_result_def sample_b64 sample_engine_def)
  have 3: "snd (screen_data lenient_base64 sample_engine 1700000000300 ''viewer-1'' ''s-1''
         (JObj [(''data'', JStr ''aGVsbG8='')]) one_session) =
      [Broadcast ''s-1'' [''host-1'', ''viewer-2''] ''screen-data''
         (JObj [(''chunk'', JObj [(''data'', JStr ''aGVsbG8='')])]),
       OcrInvoke [0x68, 0x65, 0x6c, 0x6c, 0x6f],
       Send ''viewer-1'' ''ocr-result''
         (JObj [(''sessionId'', JStr ''s-1''), (''timestamp'', JNum 1700000000300),
                (''text'', JStr (''  HELLO   WORLD '' @ [CHR 0x0A]))])]"
    by (simp add: screen_data_def registry_get_def one_session_sessions one_session_room socket_to_def
        screen_ocr_def chunk_data_def frame_imageData_def split_comma_def index_def
        perform_ocr_def ocr_result_def sample_b64 sample_engine_def)
  have 4: "engine_calls (extract_text lenient_base64 sample_engine sample_clock ''aGVsbG8='' fresh_metrics)
        = [[0x68, 0x65, 0x6c, 0x6c, 0x6f]]"
    by (simp add: extract_text_def base64Data_def sample_b64 sample_engine_def Let_def)
  show ?thesis
    using 1 2 3 4 by (intro conjI)
qed

section \<open>The shape of the replies\<close>

lemma bare_sweep: "list_all bare (snd (sweep c rs ss))"
  by (induction ss) (auto simp: bare_def io_to_def has_field_def field_def split: prod.splits)

lemma bare_step: "list_all bare (snd (step decode recognize ev st))"
proof (cases ev)
  case (Disconnect c)
  then show ?thesis
    by (simp add: disconnect_simps bare_sweep)
qed (auto simp: handler_defs bare_def has_field_def field_def Let_def
       split: option.splits sum.splits jsval.splits lookup.splits)

lemma wire_sweep: "list_all wire (snd (sweep c rs ss))"
  by (induction ss)
     (auto simp: io_to_def catalogued_def keys_of_def split: prod.splits)

lemma wire_perform_ocr:
  "list_all wire (perform_ocr decode recognize now c sessionId failed b)"
  by (simp add: perform_ocr_def error_event_def ocr_result_def catalogued_def keys_of_def
      has_string_def field_def Let_def split: sum.splits)

lemma wire_screen_ocr: "list_all wire (screen_ocr decode recognize now c sessionId chunk)"
  by (simp add: screen_ocr_def wire_perform_ocr error_event_def catalogued_def keys_of_def
      has_string_def field_def split: sum.splits jsval.splits option.splits)

lemma wire_step: "list_all wire (snd (step decode recognize ev st))"
proof (cases ev)
  case (Connect c)
  then show ?thesis by (simp add: connect_def)
next
  case (CreateSession c sessionId now)
  then show ?thesis by (simp add: create_session_def catalogued_def keys_of_def)
next
  case (JoinSession c sessionId)
  then show ?thesis
    by (simp add: join_session_def error_event_def io_to_def catalogued_def keys_of_def
        has_string_def field_def Let_def split: lookup.splits)
next
  case (ScreenData c sessionId chunk now)
  then show ?thesis
    by (simp add: screen_data_def wire_screen_ocr error_event_def socket_to_def catalogued_def
        keys_of_def has_string_def field_def split: lookup.splits)
next
  case (RequestOcr c sessionId imageData now)
  then show ?thesis
    by (simp add: request_ocr_def wire_perform_ocr error_event_def catalogued_def keys_of_def
        has_string_def field_def split: lookup.splits jsval.splits option.splits)
next
  case (Disconnect c)
  then show ?thesis by (simp add: disconnect_simps wire_sweep)
qed

text \<open>What the three handlers with a session id answer when the lookup gives nothing.\<close>

lemma session_not_found:
  assumes "registry_get (activeSessions st) sessionId = Missing"
  shows "join_session conn sessionId st =
           (st, [Send conn ''error'' (JObj [(''message'', JStr ''Session not found'')])])"
    and "screen_data decode recognize now conn sessionId chunk st =
           (st, [Send conn ''error'' (JObj [(''message'', JStr ''Session not found'')])])"
    and "request_ocr decode recognize now conn sessionId img st =
           (st, [Send conn ''error'' (JObj [(''message'', JStr ''Session not found'')])])"
  using assms by (simp_all add: join_session_def screen_data_def request_ocr_def error_event_def)

lemma screen_data_passed:
  assumes "registry_get (activeSessions st) sessionId \<noteq> Missing"
  shows "snd (screen_data decode recognize now conn sessionId chunk st) =
     Broadcast sessionId (removeAll conn (rooms st sessionId)) ''screen-data''
       (JObj [(''chunk'', chunk)]) # screen_ocr decode recognize now conn sessionId chunk"
  using assms
  by (cases "registry_get (activeSessions st) sessionId") (simp_all add: screen_data_def socket_to_def)

lemma screen_ocr_failures:
  shows "chunk = JUndefined \<or> chunk = JNull \<Longrightarrow>
      screen_ocr decode recognize now conn sessionId chunk =
        [Send conn ''error'' (JObj [(''message'', JStr ''Failed to process OCR'')])]"
    and "chunk_data chunk = Inr (JStr s) \<Longrightarrow> s \<noteq> [] \<Longrightarrow> base64Data s = [] \<Longrightarrow>
      screen_ocr decode recognize now conn sessionId chunk =
        [Send conn ''error'' (JObj [(''message'', JStr ''Invalid image data'')])]"
    and "chunk_data chunk = Inr (JStr s) \<Longrightarrow> base64Data s \<noteq> [] \<Longrightarrow>
      recognize (decode (base64Data s)) = Inl e \<Longrightarrow>
      screen_ocr decode recognize now conn sessionId chunk =
        [OcrInvoke (decode (base64Data s)),
         Send conn ''error'' (JObj [(''message'', JStr ''Failed to process OCR'')])]"
proof -
  show "chunk = JUndefined \<or> chunk = JNull \<Longrightarrow>
      screen_ocr decode recognize now conn sessionId chunk =
        [Send conn ''error'' (JObj [(''message'', JStr ''Failed to process OCR'')])]"
    by (auto simp: screen_ocr_def chunk_data_def error_event_def)
  show "chunk_data chunk = Inr (JStr s) \<Longrightarrow> s \<noteq> [] \<Longrightarrow> base64Data s = [] \<Longrightarrow>
      screen_ocr decode recognize now conn sessionId chunk =
        [Send conn ''error'' (JObj [(''message'', JStr ''Invalid image data'')])]"
    by (simp add: screen_ocr_def frame_imageData_eq error_event_def)
  show "chunk_data chunk = Inr (JStr s) \<Longrightarrow> base64Data s \<noteq> [] \<Longrightarrow>
      recognize (decode (base64Data s)) = Inl e \<Longrightarrow>
      screen_ocr decode recognize now conn sessionId chunk =
        [OcrInvoke (decode (base64Data s)),
         Send conn ''error'' (JObj [(''message'', JStr ''Failed to process OCR'')])]"
    by (simp add: screen_ocr_image [OF _ frame_imageData_eq])
qed

lemma request_ocr_passed:
  assumes "registry_get (activeSessions st) sessionId \<noteq> Missing"
  shows "snd (request_ocr decode recognize now conn sessionId img st) =
     (case img of
        JStr s \<Rightarrow>
          (case index (split_comma s) 1 of
             None \<Rightarrow> [error_event conn ''Invalid image data'']
           | Some b \<Rightarrow>
               (if b = [] then [error_event conn ''Invalid image data'']
                else perform_ocr decode recognize now conn sessionId ''Failed to perform OCR'' b))
      | _ \<Rightarrow> [error_event conn ''Failed to perform OCR''])"
  using assms
  by (cases "registry_get (activeSessions st) sessionId") (simp_all add: request_ocr_def)

lemma index_split_comma_none: "CHR '','' \<notin> set s \<Longrightarrow> index (split_comma s) 1 = None"
  using length_split_comma [of s] by (simp add: index_def del: One_nat_def)

lemma request_ocr_failures:
  assumes "registry_get (activeSessions st) sessionId \<noteq> Missing"
  shows "CHR '','' \<notin> set s \<or> base64Data s = [] \<Longrightarrow>
      snd (request_ocr decode recognize now conn sessionId (JStr s) st) =
        [Send conn ''error'' (JObj [(''message'', JStr ''Invalid image data'')])]"
    and "CHR '','' \<in> set s \<Longrightarrow> base64Data s \<noteq> [] \<Longrightarrow>
      recognize (decode (base64Data s)) = Inl e \<Longrightarrow>
      snd (request_ocr decode recognize now conn sessionId (JStr s) st) =
        [OcrInvoke (decode (base64Data s)),
         Send conn ''error'' (JObj [(''message'', JStr ''Failed to perform OCR'')])]"
    and "\<not> typeof_string img \<Longrightarrow>
      snd (request_ocr decode recognize now conn sessionId img st) =
        [Send conn ''error'' (JObj [(''message'', JStr ''Failed to perform OCR'')])]"
proof -
  note r = request_ocr_passed [OF assms]
  show "CHR '','' \<notin> set s \<or> base64Data s = [] \<Longrightarrow>
      snd (request_ocr decode recognize now conn sessionId (JStr s) st) =
        [Send conn ''error'' (JObj [(''message'', JStr ''Invalid image data'')])]"
  proof (cases "CHR '','' \<in> set s")
    case False
    then show ?thesis
      by (simp add: r index_split_comma_none error_event_def del: One_nat_def)
  next
    case True
    assume "CHR '','' \<notin> set s \<or> base64Data s = []"
    with True have "takeWhile (\<lambda>c. c \<noteq> CHR '','') (after_first_comma s) = []"
      by (simp add: base64Data_eq)
    then show ?thesis
      using True by (simp add: r index_split_comma_1 error_event_def del: One_nat_def)
  qed
  show "CHR '','' \<in> set s \<Longrightarrow> base64Data s \<noteq> [] \<Longrightarrow>
      recognize (decode (base64Data s)) = Inl e \<Longrightarrow>
      snd (request_ocr decode recognize now conn sessionId (JStr s) st) =
        [OcrInvoke (decode (base64Data s)),
         Send conn ''error'' (JObj [(''message'', JStr ''Failed to perform OCR'')])]"
    by (simp add: r index_split_comma_1 base64Data_eq perform_ocr_def error_event_def
        del: One_nat_def)
  show "\<not> typeof_string img \<Longrightarrow>
      snd (request_ocr decode recognize now conn sessionId img st) =
        [Send conn ''error'' (JObj [(''message'', JStr ''Failed to perform OCR'')])]"
    by (cases img) (simp_all add: r error_event_def)
qed

text \<open>
  C9, as the code has it. The replies of the tools \<open>screen_capture\<close> and
  \<open>extract_text\<close> are uniform envelopes: \<open>success\<close> is \<open>true\<close> for \<open>screen_capture\<close>
  and, for \<open>extract_text\<close>, \<open>true\<close> exactly when the image text is not empty and the
  engine accepts it; the \<open>timestamp\<close> is the time of the reply; a reply with
  \<open>success\<close> false has an \<open>error\<close> string. The reply of \<open>log_activity\<close> has
  \<open>success\<close> true, the time of the reply under \<open>logged_at\<close> and under the
  \<open>timestamp\<close> of its \<open>entry\<close>, and no \<open>timestamp\<close> of its own.

  On the socket transport nothing is wrapped. Every packet of every handler is one of
  the events of the protocol with the keys of that event, so none has a \<open>success\<close>
  field. Each failure that a handler reports is an \<open>error\<close> event whose payload is
  \<open>{message}\<close> and nothing else: a session id that the registry does not resolve
  (\<open>Session not found\<close>, the only packet of the three handlers); and, once the id has
  passed, a frame that is \<open>null\<close> or \<open>undefined\<close>, an image text that is empty
  after the data-URL prefix or, for \<open>request-ocr\<close>, without a comma
  (\<open>Invalid image data\<close>), an image that the engine rejects, and an image that is
  not a string. One failure is not reported at all: \<open>join-session\<close> with an id that is
  the name of an inherited property of the registry object throws inside the handler,
  and no packet is sent.
\<close>

theorem tool_replies_enveloped:
  "(uniform_envelope (reply (screen_capture clk m))
    \<and> field (reply (screen_capture clk m)) ''success'' = Some (JBool True)
    \<and> field (reply (screen_capture clk m)) ''timestamp'' = Some (JStr (stamp clk))
    \<and> uniform_envelope (reply (extract_text decode recognize clk imageData m))
    \<and> field (reply (extract_text decode recognize clk imageData m)) ''success'' =
        Some (JBool (base64Data imageData \<noteq> []
                     \<and> \<not> isl (recognize (decode (base64Data imageData)))))
    \<and> field (reply (extract_text decode recognize clk imageData m)) ''timestamp'' =
        Some (JStr (stamp clk))
    \<and> (field (reply (extract_text decode recognize clk imageData m)) ''success'' =
          Some (JBool False) \<longrightarrow>
        (\<exists>msg. field (reply (extract_text decode recognize clk imageData m)) ''error'' =
          Some (JStr msg)))
    \<and> field (reply (log_activity clk d c l t m)) ''success'' = Some (JBool True)
    \<and> field (reply (log_activity clk d c l t m)) ''logged_at'' = Some (JStr (stamp clk))
    \<and> (\<exists>entry. field (reply (log_activity clk d c l t m)) ''entry'' = Some entry
          \<and> field entry ''timestamp'' = Some (JStr (stamp clk)))
    \<and> field (reply (log_activity clk d c l t m)) ''timestamp'' = None)
   \<and> (list_all wire (snd (step decode recognize ev st))
      \<and> list_all bare (snd (step decode recognize ev st)))
   \<and> (registry_get (activeSessions st) absent = Missing \<longrightarrow>
        join_session conn absent st =
          (st, [Send conn ''error'' (JObj [(''message'', JStr ''Session not found'')])])
        \<and> screen_data decode recognize now conn absent chunk st =
          (st, [Send conn ''error'' (JObj [(''message'', JStr ''Session not found'')])])
        \<and> request_ocr decode recognize now conn absent img st =
          (st, [Send conn ''error'' (JObj [(''message'', JStr ''Session not found'')])]))
   \<and> (registry_get (activeSessions st) sessionId \<noteq> Missing \<longrightarrow>
        (chunk = JUndefined \<or> chunk = JNull \<longrightarrow>
           snd (screen_data decode recognize now conn sessionId chunk st) =
             [Broadcast sessionId (removeAll conn (rooms st sessionId)) ''screen-data''
                (JObj [(''chunk'', chunk)]),
              Send conn ''error'' (JObj [(''message'', JStr ''Failed to process OCR'')])])
        \<and> (\<forall>s. chunk_data chunk = Inr (JStr s) \<longrightarrow> s \<noteq> [] \<longrightarrow> base64Data s = [] \<longrightarrow>
           snd (screen_data decode recognize now conn sessionId chunk st) =
             [Broadcast sessionId (removeAll conn (rooms st sessionId)) ''screen-data''
                (JObj [(''chunk'', chunk)]),
              Send conn ''error'' (JObj [(''message'', JStr ''Invalid image data'')])])
        \<and> (\<forall>s e. chunk_data chunk = Inr (JStr s) \<longrightarrow> base64Data s \<noteq> [] \<longrightarrow>
             recognize (decode (base64Data s)) = Inl e \<longrightarrow>
           snd (screen_data decode recognize now conn sessionId chunk st) =
             [Broadcast sessionId (removeAll conn (rooms st sessionId)) ''screen-data''
                (JObj [(''chunk'', chunk)]),
              OcrInvoke (decode (base64Data s)),
              Send conn ''error'' (JObj [(''message'', JStr ''Failed to process OCR'')])])
        \<and> (\<forall>s. img = JStr s \<longrightarrow> CHR '','' \<notin> set s \<or> base64Data s = [] \<longrightarrow>
           snd (request_ocr decode recognize now conn sessionId img st) =
             [Send conn ''error'' (JObj [(''message'', JStr ''Invalid image data'')])])
        \<and> (\<forall>s e. img = JStr s \<longrightarrow> CHR '','' \<in> set s \<longrightarrow> base64Data s \<noteq> [] \<longrightarrow>
             recognize (decode (base64Data s)) = Inl e \<longrightarrow>
           snd (request_ocr decode recognize now conn sessionId img st) =
             [OcrInvoke (decode (base64Data s)),
              Send conn ''error'' (JObj [(''message'', JStr ''Failed to perform OCR'')])])
        \<and> (\<not> typeof_string img \<longrightarrow>
           snd (request_ocr decode recognize now conn sessionId img st) =
             [Send conn ''error'' (JObj [(''message'', JStr ''Failed to perform OCR'')])]))
   \<and> (registry_get (activeSessions st) proto = Inherited \<longrightarrow>
        join_session conn proto st = (st, [Uncaught (Error ''TypeError'')]))"
proof (intro conjI impI allI)
  show "uniform_envelope (reply (screen_capture clk m))"
    by (simp add: screen_capture_def uniform_envelope_def has_bool_def has_field_def
        has_string_def field_def)
  show "field (reply (screen_capture clk m)) ''success'' = Some (JBool True)"
    by (simp add: screen_capture_def field_def)
  show "field (reply (screen_capture clk m)) ''timestamp'' = Some (JStr (stamp clk))"
    by (simp add: screen_capture_def field_def)
  show "uniform_envelope (reply (extract_text decode recognize clk imageData m))"
    by (simp add: extract_text_def tool_failure_def uniform_envelope_def has_bool_def
        has_field_def has_string_def field_def Let_def split: sum.splits)
  show "field (reply (extract_text decode recognize clk imageData m)) ''success'' =
        Some (JBool (base64Data imageData \<noteq> []
                     \<and> \<not> isl (recognize (decode (base64Data imageData)))))"
    by (simp add: extract_text_def tool_failure_def field_def Let_def split: sum.splits)
  show "field (reply (extract_text decode recognize clk imageData m)) ''timestamp'' =
        Some (JStr (stamp clk))"
    by (simp add: extract_text_def tool_failure_def field_def Let_def split: sum.splits)
  show "\<exists>msg. field (reply (extract_text decode recognize clk imageData m)) ''error'' =
          Some (JStr msg)"
    if "field (reply (extract_text decode recognize clk imageData m)) ''success'' =
          Some (JBool False)"
    using that
    by (simp add: extract_text_def tool_failure_def field_def Let_def
        split: sum.splits if_splits)
  show "field (reply (log_activity clk d c l t m)) ''success'' = Some (JBool True)"
    by (simp add: log_activity_def field_def)
  show "field (reply (log_activity clk d c l t m)) ''logged_at'' = Some (JStr (stamp clk))"
    by (simp add: log_activity_def field_def)
  show "\<exists>entry. field (reply (log_activity clk d c l t m)) ''entry'' = Some entry
          \<and> field entry ''timestamp'' = Some (JStr (stamp clk))"
    by (simp add: log_activity_def field_def)
  show "field (reply (log_activity clk d c l t m)) ''timestamp'' = None"
    by (simp add: log_activity_def field_def)
  show "list_all wire (snd (step decode recognize ev st))"
    by (rule wire_step)
  show "list_all bare (snd (step decode recognize ev st))"
    by (rule bare_step)
next
  assume a: "registry_get (activeSessions st) absent = Missing"
  show "join_session conn absent st =
          (st, [Send conn ''error'' (JObj [(''message'', JStr ''Session not found'')])])"
    by (rule session_not_found(1) [OF a])
  show "screen_data decode recognize now conn absent chunk st =
          (st, [Send conn ''error'' (JObj [(''message'', JStr ''Session not found'')])])"
    by (rule session_not_found(2) [OF a])
  show "request_ocr decode recognize now conn absent img st =
          (st, [Send conn ''error'' (JObj [(''message'', JStr ''Session not found'')])])"
    by (rule session_not_found(3) [OF a])
next
  assume f: "registry_get (activeSessions st) sessionId \<noteq> Missing"
  note sd = screen_data_passed [OF f, of decode recognize now conn chunk]
  show "snd (screen_data decode recognize now conn sessionId chunk st) =
             [Broadcast sessionId (removeAll conn (rooms st sessionId)) ''screen-data''
                (JObj [(''chunk'', chunk)]),
              Send conn ''error'' (JObj [(''message'', JStr ''Failed to process OCR'')])]"
    if "chunk = JUndefined \<or> chunk = JNull"
    by (simp add: sd screen_ocr_failures(1) [OF that])
  show "snd (screen_data decode recognize now conn sessionId chunk st) =
             [Broadcast sessionId (removeAll conn (rooms st sessionId)) ''screen-data''
                (JObj [(''chunk'', chunk)]),
              Send conn ''error'' (JObj [(''message'', JStr ''Invalid image data'')])]"
    if "chunk_data chunk = Inr (JStr s)" "s \<noteq> []" "base64Data s = []" for s
    by (simp add: sd screen_ocr_failures(2) [OF that])
  show "snd (screen_data decode recognize now conn sessionId chunk st) =
             [Broadcast sessionId (removeAll conn (rooms st sessionId)) ''screen-data''
                (JObj [(''chunk'', chunk)]),
              OcrInvoke (decode (base64Data s)),
              Send conn ''error'' (JObj [(''message'', JStr ''Failed to process OCR'')])]"
    if "chunk_data chunk = Inr (JStr s)" "base64Data s \<noteq> []"
       "recognize (decode (base64Data s)) = Inl e" for s e
    by (simp add: sd screen_ocr_failures(3) [where decode = decode and recognize = recognize, OF that])
  show "snd (request_ocr decode recognize now conn sessionId img st) =
             [Send conn ''error'' (JObj [(''message'', JStr ''Invalid image data'')])]"
    if "img = JStr s" "CHR '','' \<notin> set s \<or> base64Data s = []" for s
    unfolding that(1) by (rule request_ocr_failures(1) [OF f that(2)])
  show "snd (request_ocr decode recognize now conn sessionId img st) =
             [OcrInvoke (decode (base64Data s)),
              Send conn ''error'' (JObj [(''message'', JStr ''Failed to perform OCR'')])]"
    if "img = JStr s" "CHR '','' \<in> set s" "base64Data s \<noteq> []"
       "recognize (decode (base64Data s)) = Inl e" for s e
    unfolding that(1)
    by (rule request_ocr_failures(2) [where decode = decode and recognize = recognize,
          OF f that(2,3,4)])
  show "snd (request_ocr decode recognize now conn sessionId img st) =
             [Send conn ''error'' (JObj [(''message'', JStr ''Failed to perform OCR'')])]"
    if "\<not> typeof_string img"
    by (rule request_ocr_failures(3) [OF f that])
next
  assume "registry_get (activeSessions st) proto = Inherited"
  then show "join_session conn proto st = (st, [Uncaught (Error ''TypeError'')])"
    by (simp add: join_session_def)
qed

theorem tool_replies_enveloped_witness:
  "field (reply (extract_text lenient_base64 sample_engine sample_clock [] fresh_metrics))
      ''success'' = Some (JBool False)
   \<and> (\<exists>msg. field (reply (extract_text lenient_base64 sample_engine sample_clock []
                  fresh_metrics)) ''error'' = Some (JStr msg))
   \<and> list_all wire
        (snd (step lenient_base64 sample_engine (JoinSession ''viewer-3'' ''s-9'') one_session))
   \<and> registry_get (activeSessions one_session) ''s-9'' = Missing
   \<and> join_session ''viewer-3'' ''s-9'' one_session =
       (one_session,
        [Send ''viewer-3'' ''error'' (JObj [(''message'', JStr ''Session not found'')])])
   \<and> screen_data lenient_base64 sample_engine 1700000000300 ''viewer-3'' ''s-9'' JNull
        one_session =
       (one_session,
        [Send ''viewer-3'' ''error'' (JObj [(''message'', JStr ''Session not found'')])])
   \<and> request_ocr lenient_base64 sample_engine 1700000000300 ''viewer-3'' ''s-9''
        (JStr ''aGVsbG8='') one_session =
       (one_session,
        [Send ''viewer-3'' ''error'' (JObj [(''message'', JStr ''Session not found'')])])
   \<and> registry_get (activeSessions one_session) ''s-1'' \<noteq> Missing
   \<and> snd (screen_data lenient_base64 sample_engine 1700000000300 ''host-1'' ''s-1'' JNull
        one_session) =
       [Broadcast ''s-1'' [''viewer-1'', ''viewer-2''] ''screen-data''
          (JObj [(''chunk'', JNull)]),
        Send ''host-1'' ''error'' (JObj [(''message'', JStr ''Failed to process OCR'')])]
   \<and> snd (request_ocr lenient_base64 sample_engine 1700000000300 ''host-1'' ''s-1''
        (JStr ''aGVsbG8='') one_session) =
       [Send ''host-1'' ''error'' (JObj [(''message'', JStr ''Invalid image data'')])]
   \<and> snd (screen_data lenient_base64 sample_engine 1700000000300 ''host-1'' ''s-1''
        (JObj [(''data'', JStr ''data:image/png;base64,'')]) one_session) =
       [Broadcast ''s-1'' [''viewer-1'', ''viewer-2''] ''screen-data''
          (JObj [(''chunk'', JObj [(''data'', JStr ''data:image/png;base64,'')])]),
        Send ''host-1'' ''error'' (JObj [(''message'', JStr ''Invalid image data'')])]
   \<and> snd (request_ocr lenient_base64 sample_engine 1700000000300 ''host-1'' ''s-1''
        (JNum 5) one_session) =
       [Send ''host-1'' ''error'' (JObj [(''message'', JStr ''Failed to perform OCR'')])]
   \<and> snd (screen_data lenient_base64 sample_engine 1700000000300 ''host-1'' ''s-1''
        (JObj [(''data'', JStr ''data:image/png;base64,!!!'')]) one_session) =
       [Broadcast ''s-1'' [''viewer-1'', ''viewer-2''] ''screen-data''
          (JObj [(''chunk'', JObj [(''data'', JStr ''data:image/png;base64,!!!'')])]),
        OcrInvoke [],
        Send ''host-1'' ''error'' (JObj [(''message'', JStr ''Failed to process OCR'')])]
   \<and> snd (request_ocr lenient_base64 sample_engine 1700000000300 ''host-1'' ''s-1''
        (JStr ''data:image/png;base64,!!!'') one_session) =
       [OcrInvoke [],
        Send ''host-1'' ''error'' (JObj [(''message'', JStr ''Failed to perform OCR'')])]
   \<and> registry_get (activeSessions one_session) ''constructor'' = Inherited
   \<and> join_session ''viewer-3'' ''constructor'' one_session =
       (one_session, [Uncaught (Error ''TypeError'')])"
proof -
  let ?raw = "JStr ''aGVsbG8=''"
  let ?empty = "JObj [(''data'', JStr ''data:image/png;base64,'')]"
  let ?bad = "JObj [(''data'', JStr ''data:image/png;base64,!!!'')]"
  note th = tool_replies_enveloped [where decode = lenient_base64 and recognize = sample_engine
      and clk = sample_clock and m = fresh_metrics and imageData = "[]" and d = "''test''"
      and c = None and l = None and t = None and st = one_session and absent = "''s-9''"
      and sessionId = "''s-1''" and proto = "''constructor''" and now = 1700000000300]
  note thA = th [where ev = "JoinSession ''viewer-3'' ''s-9''" and conn = "''viewer-3''"
      and chunk = JNull and img = ?raw]
  note thB = th [where ev = "JoinSession ''viewer-3'' ''s-9''" and conn = "''host-1''"
      and chunk = JNull and img = ?raw]
  note thC = th [where ev = "JoinSession ''viewer-3'' ''s-9''" and conn = "''host-1''"
      and chunk = ?empty and img = "JNum 5"]
  note thD = th [where ev = "JoinSession ''viewer-3'' ''s-9''" and conn = "''host-1''"
      and chunk = ?bad and img = "JStr ''data:image/png;base64,!!!''"]
  have miss: "registry_get (activeSessions one_session) ''s-9'' = Missing"
    by (simp add: registry_get_def one_session_sessions object_prototype_names_def)
  have inh: "registry_get (activeSessions one_session) ''constructor'' = Inherited"
    by (simp add: registry_get_def one_session_sessions object_prototype_names_def)
  have found: "registry_get (activeSessions one_session) ''s-1'' \<noteq> Missing"
    by (simp add: registry_get_def one_session_sessions)
  have room: "removeAll ''host-1'' (rooms one_session ''s-1'') = [''viewer-1'', ''viewer-2'']"
    by (simp add: one_session_room)
  have d: "lenient_base64 ''!!!'' = []"
    by (simp add: lenient_base64_def b64_value_def List.map_filter_def)
  have e: "sample_engine [] = Inl (Error ''Error attempting to read image.'')"
    by (simp add: sample_engine_def)
  have b0: "base64Data ''data:image/png;base64,'' = []"
    by (simp add: base64Data_eq after_first_comma_def)
  have b1: "base64Data ''data:image/png;base64,!!!'' = ''!!!''"
    by (simp add: base64Data_eq after_first_comma_def)
  have s0: "field (reply (extract_text lenient_base64 sample_engine sample_clock []
      fresh_metrics)) ''success'' = Some (JBool False)"
    using thA [THEN conjunct1] by (simp add: base64Data_def)
  have s1: "\<exists>msg. field (reply (extract_text lenient_base64 sample_engine sample_clock []
      fresh_metrics)) ''error'' = Some (JStr msg)"
    using thA [THEN conjunct1] s0 by simp
  have w: "list_all wire
        (snd (step lenient_base64 sample_engine (JoinSession ''viewer-3'' ''s-9'') one_session))"
    by (rule thA [THEN conjunct2, THEN conjunct1, THEN conjunct1])
  note m = thA [THEN conjunct2, THEN conjunct2, THEN conjunct1, THEN mp, OF miss]
  note i = thA [THEN conjunct2, THEN conjunct2, THEN conjunct2, THEN conjunct2, THEN mp, OF inh]
  note fB = thB [THEN conjunct2, THEN conjunct2, THEN conjunct2, THEN conjunct1,
      THEN mp, OF found]
  note fC = thC [THEN conjunct2, THEN conjunct2, THEN conjunct2, THEN conjunct1,
      THEN mp, OF found]
  note fD = thD [THEN conjunct2, THEN conjunct2, THEN conjunct2, THEN conjunct1,
      THEN mp, OF found]
  have x1: "snd (screen_data lenient_base64 sample_engine 1700000000300 ''host-1'' ''s-1'' JNull
        one_session) =
       [Broadcast ''s-1'' [''viewer-1'', ''viewer-2''] ''screen-data''
          (JObj [(''chunk'', JNull)]),
        Send ''host-1'' ''error'' (JObj [(''message'', JStr ''Failed to process OCR'')])]"
    using fB [THEN conjunct1] by (simp add: room)
  have x4: "snd (request_ocr lenient_base64 sample_engine 1700000000300 ''host-1'' ''s-1''
        (JStr ''aGVsbG8='') one_session) =
       [Send ''host-1'' ''error'' (JObj [(''message'', JStr ''Invalid image data'')])]"
    using fB [THEN conjunct2, THEN conjunct2, THEN conjunct2, THEN conjunct1, rule_format,
        of "''aGVsbG8=''"]
    by simp
  have x2: "snd (screen_data lenient_base64 sample_engine 1700000000300 ''host-1'' ''s-1''
        ?empty one_session) =
       [Broadcast ''s-1'' [''viewer-1'', ''viewer-2''] ''screen-data''
          (JObj [(''chunk'', ?empty)]),
        Send ''host-1'' ''error'' (JObj [(''message'', JStr ''Invalid image data'')])]"
    using fC [THEN conjunct2, THEN conjunct1, rule_format, of "''data:image/png;base64,''"]
    by (simp add: room b0 chunk_data_def field_def)
  have x6: "snd (request_ocr lenient_base64 sample_engine 1700000000300 ''host-1'' ''s-1''
        (JNum 5) one_session) =
       [Send ''host-1'' ''error'' (JObj [(''message'', JStr ''Failed to perform OCR'')])]"
    using fC [THEN conjunct2, THEN conjunct2, THEN conjunct2, THEN conjunct2, THEN conjunct2]
    by simp
  have x3: "snd (screen_data lenient_base64 sample_engine 1700000000300 ''host-1'' ''s-1''
        ?bad one_session) =
       [Broadcast ''s-1'' [''viewer-1'', ''viewer-2''] ''screen-data''
          (JObj [(''chunk'', ?bad)]),
        OcrInvoke [],
        Send ''host-1'' ''error'' (JObj [(''message'', JStr ''Failed to process OCR'')])]"
    using fD [THEN conjunct2, THEN conjunct2, THEN conjunct1, rule_format,
        of "''data:image/png;base64,!!!''" "Error ''Error attempting to read image.''"]
    by (simp add: room b1 d e chunk_data_def field_def)
  have x5: "snd (request_ocr lenient_base64 sample_engine 1700000000300 ''host-1'' ''s-1''
        (JStr ''data:image/png;base64,!!!'') one_session) =
       [OcrInvoke [],
        Send ''host-1'' ''error'' (JObj [(''message'', JStr ''Failed to perform OCR'')])]"
    using fD [THEN conjunct2, THEN conjunct2, THEN conjunct2, THEN conjunct2, THEN conjunct1,
        rule_format, of "''data:image/png;base64,!!!''" "Error ''Error attempting to read image.''"]
    by (simp add: b1 d e)
  show ?thesis
    by (intro conjI) (rule s0 s1 w miss m [THEN conjunct1] m [THEN conjunct2, THEN conjunct1]
        m [THEN conjunct2, THEN conjunct2] found x1 x2 x3 x4 x5 x6 inh i)+
qed

text \<open>
  C9 as stated fails on the socket transport: the answer to \<open>join-session\<close> for a
  session that does not exist is an \<open>error\<close> packet with a \<open>message\<close> only, with
  no \<open>success\<close> field and no \<open>timestamp\<close>.
\<close>

theorem uniform_envelope_counterexample:
  "snd (join_session ''viewer-3'' ''s-9'' one_session)
     = [Send ''viewer-3'' ''error'' (JObj [(''message'', JStr ''Session not found'')])]
   \<and> \<not> uniform_envelope (JObj [(''message'', JStr ''Session not found'')])
   \<and> field (JObj [(''message'', JStr ''Session not found'')]) ''success'' = None
   \<and> field (JObj [(''message'', JStr ''Session not found'')]) ''timestamp'' = None"
  by (simp add: join_session_def registry_get_def object_prototype_names_def
      one_session_sessions error_event_def uniform_envelope_def
      has_bool_def has_field_def field_def)

end
